theory Spec2Isabelle
  imports Main
begin

section \<open>Data model (src/models/types.ts)\<close>

datatype PieceType = KING | QUEEN | ROOK | BISHOP | KNIGHT | PAWN

datatype PieceColor = WHITE | BLACK

text \<open>
  A piece. The optional field \<open>specialAbilities\<close> of the interface is never read or
  written by the engine (the parser creates pieces with the three fields below) and is
  left out.
\<close>

record Piece =
  type :: PieceType
  color :: PieceColor
  hasMoved :: bool

text \<open>Coordinates are JavaScript numbers; the engine computes \<open>row + direction\<close> and
  tests the result afterwards, so they are integers that may leave the grid.\<close>

record Position =
  row :: int
  col :: int

datatype MoveType =
  NORMAL | CAPTURE | CASTLE_KINGSIDE | CASTLE_QUEENSIDE | EN_PASSANT
  | PROMOTION | CAPTURE_AND_PROMOTION | SPECIAL_ABILITY

text \<open>
  A move. The source fields \<open>from\<close>, \<open>to\<close>, \<open>type\<close> and \<open>piece\<close> are named
  \<open>moveFrom\<close>, \<open>moveTo\<close>, \<open>moveType\<close> and \<open>movePiece\<close> here; an optional field that
  is absent is \<open>None\<close>.
\<close>

record Move =
  moveFrom :: Position
  moveTo :: Position
  moveType :: MoveType
  movePiece :: Piece
  capturedPiece :: "Piece option"
  promotionPieceType :: "PieceType option"
  castlingRookFrom :: "Position option"
  castlingRookTo :: "Position option"
  enPassantCapturePos :: "Position option"

record CastlingSides =
  kingSide :: bool
  queenSide :: bool

text \<open>The castling rights are a dictionary keyed by colour; a missing key is \<open>None\<close>.\<close>

type_synonym CastlingRights = "PieceColor \<Rightarrow> CastlingSides option"

definition defaultCastlingRights :: CastlingRights where
  "defaultCastlingRights = (\<lambda>c. Some \<lparr>kingSide = True, queenSide = True\<rparr>)"

definition BOARD_SIZE :: int where
  "BOARD_SIZE = 8"

fun PIECE_VALUES :: "PieceType \<Rightarrow> int" where
  "PIECE_VALUES PAWN = 100"
| "PIECE_VALUES KNIGHT = 320"
| "PIECE_VALUES BISHOP = 330"
| "PIECE_VALUES ROOK = 500"
| "PIECE_VALUES QUEEN = 900"
| "PIECE_VALUES KING = 20000"

datatype DirectionName =
  NORTH | NORTHEAST | EAST | SOUTHEAST | SOUTH | SOUTHWEST | WEST | NORTHWEST

fun DIRECTIONS :: "DirectionName \<Rightarrow> Position" where
  "DIRECTIONS NORTH = \<lparr>row = -1, col = 0\<rparr>"
| "DIRECTIONS NORTHEAST = \<lparr>row = -1, col = 1\<rparr>"
| "DIRECTIONS EAST = \<lparr>row = 0, col = 1\<rparr>"
| "DIRECTIONS SOUTHEAST = \<lparr>row = 1, col = 1\<rparr>"
| "DIRECTIONS SOUTH = \<lparr>row = 1, col = 0\<rparr>"
| "DIRECTIONS SOUTHWEST = \<lparr>row = 1, col = -1\<rparr>"
| "DIRECTIONS WEST = \<lparr>row = 0, col = -1\<rparr>"
| "DIRECTIONS NORTHWEST = \<lparr>row = -1, col = -1\<rparr>"

definition KNIGHT_MOVES :: "Position list" where
  "KNIGHT_MOVES =
     [\<lparr>row = -2, col = -1\<rparr>, \<lparr>row = -2, col = 1\<rparr>, \<lparr>row = -1, col = -2\<rparr>,
      \<lparr>row = -1, col = 2\<rparr>, \<lparr>row = 1, col = -2\<rparr>, \<lparr>row = 1, col = 2\<rparr>,
      \<lparr>row = 2, col = -1\<rparr>, \<lparr>row = 2, col = 1\<rparr>]"

section \<open>The board (src/utils/boardUtils.ts)\<close>

text \<open>
  The board is an array of rows, each an array of cells holding a piece or \<open>null\<close>.
  The engine is written for the 8 x 8 grid: its loops run over rows and columns
  \<open>0..7\<close> and every computed square is tested with \<open>isValidPosition\<close> before it is
  read.
\<close>

type_synonym Board = "Piece option list list"

definition wellFormedBoard :: "Board \<Rightarrow> bool" where
  "wellFormedBoard board =
     (int (length board) = BOARD_SIZE \<and> list_all (\<lambda>r. int (length r) = BOARD_SIZE) board)"

definition isValidPosition :: "Position \<Rightarrow> bool" where
  "isValidPosition position =
     (row position \<ge> 0 \<and> row position < BOARD_SIZE \<and> col position \<ge> 0 \<and> col position < BOARD_SIZE)"

text \<open>
  \<open>cellAt board r c\<close> is the read \<open>board[r][c]\<close>. Inside the grid it is the cell. Outside
  it JavaScript yields \<open>undefined\<close> for a column beyond the row (falsy, like \<open>null\<close>)
  and raises a TypeError for a row beyond the board; the model answers \<open>None\<close> in both
  cases, and the theorems below are stated for well-formed boards and squares of the
  grid, where no such read happens.
\<close>

definition cellAt :: "Board \<Rightarrow> int \<Rightarrow> int \<Rightarrow> Piece option" where
  "cellAt board r c =
     (if 0 \<le> r \<and> r < int (length board) \<and> 0 \<le> c \<and> c < int (length (board ! nat r))
      then board ! nat r ! nat c else None)"

text \<open>
  \<open>setCell board r c v\<close> is the write \<open>board[r][c] = v\<close>. Outside the grid JavaScript
  raises (row) or extends the row array (column); the model leaves the board as it is
  there, and the theorems about writes assume squares of the grid.
\<close>

definition setCell :: "Board \<Rightarrow> int \<Rightarrow> int \<Rightarrow> Piece option \<Rightarrow> Board" where
  "setCell board r c v =
     (if 0 \<le> r \<and> r < int (length board) \<and> 0 \<le> c \<and> c < int (length (board ! nat r))
      then board[nat r := (board ! nat r)[nat c := v]] else board)"

text \<open>
  \<open>deepClone\<close> is \<open>JSON.parse(JSON.stringify(obj))\<close>: on a board (arrays of \<open>null\<close> and
  of objects with primitive fields) it yields a structurally equal, independent copy.
  Boards are values here, so the copy is the board itself.
\<close>

definition deepClone :: "Board \<Rightarrow> Board" where
  "deepClone obj = obj"

section \<open>Applying a move (src/utils/gameUtils.ts, applyMove)\<close>

text \<open>
  The source mutates the board it is given and returns nothing; the model returns the
  board after the writes, which happen in the source's order.
\<close>

definition applyMove :: "Board \<Rightarrow> Move \<Rightarrow> Board" where
  "applyMove board move =
     (let from = moveFrom move; to = moveTo move; ty = moveType move; piece = movePiece move;
          board = setCell board (row from) (col from) None;
          board =
            (if ty = PROMOTION \<or> ty = CAPTURE_AND_PROMOTION
             then setCell board (row to) (col to)
                    (Some \<lparr>type = (case promotionPieceType move of Some t \<Rightarrow> t | None \<Rightarrow> QUEEN),
                           color = color piece, hasMoved = True\<rparr>)
             else setCell board (row to) (col to) (Some (piece\<lparr>hasMoved := True\<rparr>)));
          board =
            (if ty = CASTLE_KINGSIDE \<or> ty = CASTLE_QUEENSIDE
             then (case (castlingRookFrom move, castlingRookTo move) of
                     (Some rookFrom, Some rookTo) \<Rightarrow>
                       (let rook = cellAt board (row rookFrom) (col rookFrom);
                            board = setCell board (row rookFrom) (col rookFrom) None
                        in (case rook of
                              Some r \<Rightarrow> setCell board (row rookTo) (col rookTo) (Some (r\<lparr>hasMoved := True\<rparr>))
                            | None \<Rightarrow> board))
                   | _ \<Rightarrow> board)
             else board)
      in (if ty = EN_PASSANT
          then (case enPassantCapturePos move of
                  Some capturePos \<Rightarrow> setCell board (row capturePos) (col capturePos) None
                | None \<Rightarrow> board)
          else board))"

section \<open>Pseudo-legal move generation (src/utils/gameUtils.ts)\<close>

text \<open>
  Every generator of the source appends to a shared array \<open>moves\<close>; the model returns
  the moves appended, in the order of the pushes. A move literal of the source lists
  only some fields; the others are absent.
\<close>

definition basicMove :: "Position \<Rightarrow> Position \<Rightarrow> MoveType \<Rightarrow> Piece \<Rightarrow> Piece option \<Rightarrow> Move" where
  "basicMove from to ty piece captured =
     \<lparr>moveFrom = from, moveTo = to, moveType = ty, movePiece = piece,
      capturedPiece = captured, promotionPieceType = None, castlingRookFrom = None,
      castlingRookTo = None, enPassantCapturePos = None\<rparr>"

definition addPawnPromotionMoves :: "Position \<Rightarrow> Position \<Rightarrow> Piece \<Rightarrow> Piece option \<Rightarrow> Move list" where
  "addPawnPromotionMoves from to piece captured =
     map (\<lambda>promotion.
            \<lparr>moveFrom = from, moveTo = to,
             moveType = (if captured \<noteq> None then CAPTURE_AND_PROMOTION else PROMOTION),
             movePiece = piece, capturedPiece = captured,
             promotionPieceType = Some promotion, castlingRookFrom = None,
             castlingRookTo = None, enPassantCapturePos = None\<rparr>)
         [QUEEN, ROOK, BISHOP, KNIGHT]"

text \<open>The body of the loop of \<open>getPawnMoves\<close> over the two capture squares.\<close>

definition pawnCaptureMoves ::
  "Board \<Rightarrow> Position \<Rightarrow> Piece \<Rightarrow> Position option \<Rightarrow> Position \<Rightarrow> Move list" where
  "pawnCaptureMoves board position piece enPassantTarget captureMove =
     (if isValidPosition captureMove then
        (case cellAt board (row captureMove) (col captureMove) of
           Some targetPiece \<Rightarrow>
             (if color targetPiece \<noteq> color piece then
                (if (color piece = WHITE \<and> row captureMove = 0)
                    \<or> (color piece = BLACK \<and> row captureMove = 7)
                 then addPawnPromotionMoves position captureMove piece (Some targetPiece)
                 else [basicMove position captureMove CAPTURE piece (Some targetPiece)])
              else [])
         | None \<Rightarrow> [])
        @ (case enPassantTarget of
             Some target \<Rightarrow>
               (if row captureMove = row target \<and> col captureMove = col target then
                  (let capturedPawnPos = \<lparr>row = row position, col = col target\<rparr> in
                   (case cellAt board (row capturedPawnPos) (col capturedPawnPos) of
                      Some capturedPawn \<Rightarrow>
                        (if type capturedPawn = PAWN \<and> color capturedPawn \<noteq> color piece
                         then [(basicMove position captureMove EN_PASSANT piece (Some capturedPawn))
                                 \<lparr>enPassantCapturePos := Some capturedPawnPos\<rparr>]
                         else [])
                    | None \<Rightarrow> []))
                else [])
           | None \<Rightarrow> [])
      else [])"

text \<open>The first part of \<open>getPawnMoves\<close>: the forward moves.\<close>

definition pawnForwardMoves :: "Board \<Rightarrow> Position \<Rightarrow> Piece \<Rightarrow> Move list" where
  "pawnForwardMoves board position piece =
     (let direction = (if color piece = WHITE then -1 else 1);
          oneForward = \<lparr>row = row position + direction, col = col position\<rparr>
      in if isValidPosition oneForward \<and> cellAt board (row oneForward) (col oneForward) = None
         then
           (if (color piece = WHITE \<and> row oneForward = 0)
               \<or> (color piece = BLACK \<and> row oneForward = 7)
            then addPawnPromotionMoves position oneForward piece None
            else [basicMove position oneForward NORMAL piece None])
           @ (if (color piece = WHITE \<and> row position = 6)
                 \<or> (color piece = BLACK \<and> row position = 1)
              then
                (let twoForward = \<lparr>row = row position + 2 * direction, col = col position\<rparr> in
                 if isValidPosition twoForward
                    \<and> cellAt board (row twoForward) (col twoForward) = None
                 then [basicMove position twoForward NORMAL piece None]
                 else [])
              else [])
         else [])"

definition getPawnMoves :: "Board \<Rightarrow> Position \<Rightarrow> Piece \<Rightarrow> Position option \<Rightarrow> Move list" where
  "getPawnMoves board position piece enPassantTarget =
     (let direction = (if color piece = WHITE then -1 else 1);
          captureMoves =
            [\<lparr>row = row position + direction, col = col position - 1\<rparr>,
             \<lparr>row = row position + direction, col = col position + 1\<rparr>]
      in pawnForwardMoves board position piece
         @ concat (map (pawnCaptureMoves board position piece enPassantTarget) captureMoves))"

text \<open>
  The step shared by the knight and the king: one offset from the piece's square, a quiet
  move onto an empty square or a capture of an enemy piece.
\<close>

definition stepMoves :: "Board \<Rightarrow> Position \<Rightarrow> Piece \<Rightarrow> Position \<Rightarrow> Move list" where
  "stepMoves board position piece offset =
     (let newPos = \<lparr>row = row position + row offset, col = col position + col offset\<rparr> in
      if isValidPosition newPos then
        (case cellAt board (row newPos) (col newPos) of
           None \<Rightarrow> [basicMove position newPos NORMAL piece None]
         | Some targetPiece \<Rightarrow>
             (if color targetPiece \<noteq> color piece
              then [basicMove position newPos CAPTURE piece (Some targetPiece)]
              else []))
      else [])"

definition getKnightMoves :: "Board \<Rightarrow> Position \<Rightarrow> Piece \<Rightarrow> Move list" where
  "getKnightMoves board position piece = concat (map (stepMoves board position piece) KNIGHT_MOVES)"

text \<open>
  The \<open>while\<close> loop of \<open>getLinearMoves\<close> along one direction, from the square
  \<open>(newRow, newCol)\<close> on. The direction is one of the eight constants, so each step moves
  towards an edge of the grid and the loop ends.
\<close>

function linearRay ::
  "Board \<Rightarrow> Position \<Rightarrow> Piece \<Rightarrow> DirectionName \<Rightarrow> int \<Rightarrow> int \<Rightarrow> Move list" where
  "linearRay board position piece direction newRow newCol =
     (if isValidPosition \<lparr>row = newRow, col = newCol\<rparr> then
        (case cellAt board newRow newCol of
           None \<Rightarrow>
             basicMove position \<lparr>row = newRow, col = newCol\<rparr> NORMAL piece None
             # linearRay board position piece direction
                 (newRow + row (DIRECTIONS direction)) (newCol + col (DIRECTIONS direction))
         | Some targetPiece \<Rightarrow>
             (if color targetPiece \<noteq> color piece
              then [basicMove position \<lparr>row = newRow, col = newCol\<rparr> CAPTURE piece (Some targetPiece)]
              else []))
      else [])"
  by pat_completeness auto
termination
  by (relation "measure (\<lambda>(board, position, piece, direction, newRow, newCol).
        if row (DIRECTIONS direction) = 1 then nat (8 - newRow)
        else if row (DIRECTIONS direction) = -1 then nat (newRow + 1)
        else if col (DIRECTIONS direction) = 1 then nat (8 - newCol)
        else nat (newCol + 1))")
     (auto simp: isValidPosition_def BOARD_SIZE_def split: DirectionName.splits,
      (case_tac direction; simp)+)

definition getLinearMoves :: "Board \<Rightarrow> Position \<Rightarrow> Piece \<Rightarrow> DirectionName list \<Rightarrow> Move list" where
  "getLinearMoves board position piece directions =
     concat (map (\<lambda>direction.
                    linearRay board position piece direction
                      (row position + row (DIRECTIONS direction))
                      (col position + col (DIRECTIONS direction)))
                 directions)"

definition getBishopMoves :: "Board \<Rightarrow> Position \<Rightarrow> Piece \<Rightarrow> Move list" where
  "getBishopMoves board position piece =
     getLinearMoves board position piece [NORTHEAST, SOUTHEAST, SOUTHWEST, NORTHWEST]"

definition getRookMoves :: "Board \<Rightarrow> Position \<Rightarrow> Piece \<Rightarrow> Move list" where
  "getRookMoves board position piece =
     getLinearMoves board position piece [NORTH, EAST, SOUTH, WEST]"

definition getQueenMoves :: "Board \<Rightarrow> Position \<Rightarrow> Piece \<Rightarrow> Move list" where
  "getQueenMoves board position piece =
     getLinearMoves board position piece
       [NORTH, NORTHEAST, EAST, SOUTHEAST, SOUTH, SOUTHWEST, WEST, NORTHWEST]"

definition castlingMoves ::
  "Board \<Rightarrow> Position \<Rightarrow> Piece \<Rightarrow> CastlingRights \<Rightarrow> Move list" where
  "castlingMoves board position piece castlingRights =
     (if \<not> hasMoved piece then
        (let kingColor = color piece;
             kingRank = (if kingColor = WHITE then 7 else 0) in
         (if (case castlingRights kingColor of Some sides \<Rightarrow> kingSide sides | None \<Rightarrow> False) then
            (if cellAt board kingRank 5 = None \<and> cellAt board kingRank 6 = None then
               (case cellAt board kingRank 7 of
                  Some rookPiece \<Rightarrow>
                    (if type rookPiece = ROOK \<and> color rookPiece = kingColor \<and> \<not> hasMoved rookPiece
                     then [(basicMove position \<lparr>row = kingRank, col = 6\<rparr> CASTLE_KINGSIDE piece None)
                             \<lparr>castlingRookFrom := Some \<lparr>row = kingRank, col = 7\<rparr>,
                              castlingRookTo := Some \<lparr>row = kingRank, col = 5\<rparr>\<rparr>]
                     else [])
                | None \<Rightarrow> [])
             else [])
          else [])
         @ (if (case castlingRights kingColor of Some sides \<Rightarrow> queenSide sides | None \<Rightarrow> False) then
              (if cellAt board kingRank 1 = None \<and> cellAt board kingRank 2 = None
                  \<and> cellAt board kingRank 3 = None then
                 (case cellAt board kingRank 0 of
                    Some rookPiece \<Rightarrow>
                      (if type rookPiece = ROOK \<and> color rookPiece = kingColor \<and> \<not> hasMoved rookPiece
                       then [(basicMove position \<lparr>row = kingRank, col = 2\<rparr> CASTLE_QUEENSIDE piece None)
                               \<lparr>castlingRookFrom := Some \<lparr>row = kingRank, col = 0\<rparr>,
                                castlingRookTo := Some \<lparr>row = kingRank, col = 3\<rparr>\<rparr>]
                       else [])
                  | None \<Rightarrow> [])
               else [])
            else []))
      else [])"

definition getKingMoves :: "Board \<Rightarrow> Position \<Rightarrow> Piece \<Rightarrow> CastlingRights \<Rightarrow> Move list" where
  "getKingMoves board position piece castlingRights =
     concat (map (\<lambda>direction. stepMoves board position piece (DIRECTIONS direction))
                 [NORTH, NORTHEAST, EAST, SOUTHEAST, SOUTH, SOUTHWEST, WEST, NORTHWEST])
     @ castlingMoves board position piece castlingRights"

definition getPossibleMoves ::
  "Board \<Rightarrow> Position \<Rightarrow> Position option \<Rightarrow> CastlingRights \<Rightarrow> Move list" where
  "getPossibleMoves board position enPassantTarget castlingRights =
     (case cellAt board (row position) (col position) of
        None \<Rightarrow> []
      | Some piece \<Rightarrow>
          (case type piece of
             PAWN \<Rightarrow> getPawnMoves board position piece enPassantTarget
           | KNIGHT \<Rightarrow> getKnightMoves board position piece
           | BISHOP \<Rightarrow> getBishopMoves board position piece
           | ROOK \<Rightarrow> getRookMoves board position piece
           | QUEEN \<Rightarrow> getQueenMoves board position piece
           | KING \<Rightarrow> getKingMoves board position piece castlingRights))"

section \<open>Check detection, legality and terminal positions (src/utils/gameUtils.ts)\<close>

text \<open>
  The squares in the order of the nested loops \<open>for row = 0..7\<close>, \<open>for col = 0..7\<close>.
\<close>

definition boardPositions :: "Position list" where
  "boardPositions =
     concat (map (\<lambda>r. map (\<lambda>c. \<lparr>row = r, col = c\<rparr>) [0 .. BOARD_SIZE - 1]) [0 .. BOARD_SIZE - 1])"

text \<open>
  The first loop of \<open>isKingInCheck\<close>: it stops (both \<open>break\<close>s) at the first king of the
  colour in row-major order; \<open>None\<close> when the loop ends with \<open>kingPosition\<close> still null.
\<close>

fun findKing :: "Board \<Rightarrow> PieceColor \<Rightarrow> Position list \<Rightarrow> Position option" where
  "findKing board kingColor [] = None"
| "findKing board kingColor (pos # rest) =
     (case cellAt board (row pos) (col pos) of
        Some piece \<Rightarrow>
          (if type piece = KING \<and> color piece = kingColor then Some pos
           else findKing board kingColor rest)
      | None \<Rightarrow> findKing board kingColor rest)"

text \<open>
  The second loop: \<open>return true\<close> at the first opposing piece one of whose pseudo-legal
  moves (generated with the default arguments: no en-passant target, all castling rights)
  ends on the king's square; \<open>false\<close> when the loop ends.
\<close>

fun attackedFrom :: "Board \<Rightarrow> PieceColor \<Rightarrow> Position \<Rightarrow> Position list \<Rightarrow> bool" where
  "attackedFrom board opponentColor kingPosition [] = False"
| "attackedFrom board opponentColor kingPosition (pos # rest) =
     (case cellAt board (row pos) (col pos) of
        Some piece \<Rightarrow>
          (if color piece = opponentColor
              \<and> list_ex (\<lambda>move. row (moveTo move) = row kingPosition
                                \<and> col (moveTo move) = col kingPosition)
                   (getPossibleMoves board pos None defaultCastlingRights)
           then True
           else attackedFrom board opponentColor kingPosition rest)
      | None \<Rightarrow> attackedFrom board opponentColor kingPosition rest)"

definition isKingInCheck :: "Board \<Rightarrow> PieceColor \<Rightarrow> bool" where
  "isKingInCheck board kingColor =
     (case findKing board kingColor boardPositions of
        None \<Rightarrow> False
      | Some kingPosition \<Rightarrow>
          (let opponentColor = (if kingColor = WHITE then BLACK else WHITE)
           in attackedFrom board opponentColor kingPosition boardPositions))"

definition filterLegalMoves :: "Board \<Rightarrow> Move list \<Rightarrow> PieceColor \<Rightarrow> Move list" where
  "filterLegalMoves board moves currentPlayer =
     filter (\<lambda>move. let newBoard = applyMove (deepClone board) move
                     in \<not> isKingInCheck newBoard currentPlayer)
            moves"

text \<open>
  The loop shared by \<open>isCheckmate\<close> and \<open>isStalemate\<close>: \<open>return false\<close> at the first
  piece of the colour that has a legal move, \<open>true\<close> when the loop ends.
\<close>

fun noLegalMoveFrom :: "Board \<Rightarrow> PieceColor \<Rightarrow> Position list \<Rightarrow> bool" where
  "noLegalMoveFrom board playerColor [] = True"
| "noLegalMoveFrom board playerColor (pos # rest) =
     (case cellAt board (row pos) (col pos) of
        Some piece \<Rightarrow>
          (if color piece = playerColor then
             (let moves = getPossibleMoves board pos None defaultCastlingRights;
                  legalMoves = filterLegalMoves board moves playerColor
              in if length legalMoves > 0 then False
                 else noLegalMoveFrom board playerColor rest)
           else noLegalMoveFrom board playerColor rest)
      | None \<Rightarrow> noLegalMoveFrom board playerColor rest)"

definition isCheckmate :: "Board \<Rightarrow> PieceColor \<Rightarrow> bool" where
  "isCheckmate board playerColor =
     (if \<not> isKingInCheck board playerColor then False
      else noLegalMoveFrom board playerColor boardPositions)"

definition isStalemate :: "Board \<Rightarrow> PieceColor \<Rightarrow> bool" where
  "isStalemate board playerColor =
     (if isKingInCheck board playerColor then False
      else noLegalMoveFrom board playerColor boardPositions)"

text \<open>
  The set the specification calls the pseudo-legal moves of a colour: the moves of every
  piece of that colour, square by square, generated as \<open>isCheckmate\<close> generates them.
\<close>

definition allMovesOf :: "Board \<Rightarrow> PieceColor \<Rightarrow> Move list" where
  "allMovesOf board playerColor =
     concat (map (\<lambda>pos. case cellAt board (row pos) (col pos) of
                          Some piece \<Rightarrow>
                            (if color piece = playerColor
                             then getPossibleMoves board pos None defaultCastlingRights
                             else [])
                        | None \<Rightarrow> [])
                 boardPositions)"

text \<open>A move all of whose squares lie on the grid.\<close>

definition validMove :: "Move \<Rightarrow> bool" where
  "validMove m =
     (isValidPosition (moveFrom m) \<and> isValidPosition (moveTo m)
      \<and> (case castlingRookFrom m of Some p \<Rightarrow> isValidPosition p | None \<Rightarrow> True)
      \<and> (case castlingRookTo m of Some p \<Rightarrow> isValidPosition p | None \<Rightarrow> True)
      \<and> (case enPassantCapturePos m of Some p \<Rightarrow> isValidPosition p | None \<Rightarrow> True))"

section \<open>Static evaluation (the evaluation and search module, src/unnamed/part_002)\<close>

fun PIECE_SQUARE_TABLES :: "PieceType \<Rightarrow> int list list" where
  "PIECE_SQUARE_TABLES PAWN =
     [[0, 0, 0, 0, 0, 0, 0, 0],
      [50, 50, 50, 50, 50, 50, 50, 50],
      [10, 10, 20, 30, 30, 20, 10, 10],
      [5, 5, 10, 25, 25, 10, 5, 5],
      [0, 0, 0, 20, 20, 0, 0, 0],
      [5, -5, -10, 0, 0, -10, -5, 5],
      [5, 10, 10, -20, -20, 10, 10, 5],
      [0, 0, 0, 0, 0, 0, 0, 0]]"
| "PIECE_SQUARE_TABLES KNIGHT =
     [[-50, -40, -30, -30, -30, -30, -40, -50],
      [-40, -20, 0, 0, 0, 0, -20, -40],
      [-30, 0, 10, 15, 15, 10, 0, -30],
      [-30, 5, 15, 20, 20, 15, 5, -30],
      [-30, 0, 15, 20, 20, 15, 0, -30],
      [-30, 5, 10, 15, 15, 10, 5, -30],
      [-40, -20, 0, 5, 5, 0, -20, -40],
      [-50, -40, -30, -30, -30, -30, -40, -50]]"
| "PIECE_SQUARE_TABLES BISHOP =
     [[-20, -10, -10, -10, -10, -10, -10, -20],
      [-10, 0, 0, 0, 0, 0, 0, -10],
      [-10, 0, 10, 10, 10, 10, 0, -10],
      [-10, 5, 5, 10, 10, 5, 5, -10],
      [-10, 0, 5, 10, 10, 5, 0, -10],
      [-10, 5, 5, 5, 5, 5, 5, -10],
      [-10, 0, 5, 0, 0, 5, 0, -10],
      [-20, -10, -10, -10, -10, -10, -10, -20]]"
| "PIECE_SQUARE_TABLES ROOK =
     [[0, 0, 0, 0, 0, 0, 0, 0],
      [5, 10, 10, 10, 10, 10, 10, 5],
      [-5, 0, 0, 0, 0, 0, 0, -5],
      [-5, 0, 0, 0, 0, 0, 0, -5],
      [-5, 0, 0, 0, 0, 0, 0, -5],
      [-5, 0, 0, 0, 0, 0, 0, -5],
      [-5, 0, 0, 0, 0, 0, 0, -5],
      [0, 0, 0, 5, 5, 0, 0, 0]]"
| "PIECE_SQUARE_TABLES QUEEN =
     [[-20, -10, -10, -5, -5, -10, -10, -20],
      [-10, 0, 0, 0, 0, 0, 0, -10],
      [-10, 0, 5, 5, 5, 5, 0, -10],
      [-5, 0, 5, 5, 5, 5, 0, -5],
      [0, 0, 5, 5, 5, 5, 0, -5],
      [-10, 5, 5, 5, 5, 5, 0, -10],
      [-10, 0, 5, 0, 0, 0, 0, -10],
      [-20, -10, -10, -5, -5, -10, -10, -20]]"
| "PIECE_SQUARE_TABLES KING =
     [[-30, -40, -40, -50, -50, -40, -40, -30],
      [-30, -40, -40, -50, -50, -40, -40, -30],
      [-30, -40, -40, -50, -50, -40, -40, -30],
      [-30, -40, -40, -50, -50, -40, -40, -30],
      [-20, -30, -30, -40, -40, -30, -30, -20],
      [-10, -20, -20, -20, -20, -20, -20, -10],
      [20, 20, 0, 0, 0, 0, 20, 20],
      [20, 30, 10, 0, 0, 10, 30, 20]]"

text \<open>The entry \<open>kingEndgame\<close> of the same table object.\<close>

definition kingEndgame :: "int list list" where
  "kingEndgame =
     [[-50, -40, -30, -20, -20, -30, -40, -50],
      [-30, -20, -10, 0, 0, -10, -20, -30],
      [-30, -10, 20, 30, 30, 20, -10, -30],
      [-30, -10, 30, 40, 40, 30, -10, -30],
      [-30, -10, 30, 40, 40, 30, -10, -30],
      [-30, -10, 20, 30, 30, 20, -10, -30],
      [-30, -30, 0, 0, 0, 0, -30, -30],
      [-50, -30, -30, -30, -30, -30, -30, -50]]"

text \<open>\<open>table[r][c]\<close>; the evaluator indexes the tables with rows and columns in \<open>0..7\<close> only.\<close>

definition tableAt :: "int list list \<Rightarrow> int \<Rightarrow> int \<Rightarrow> int" where
  "tableAt table r c = table ! nat r ! nat c"

definition evaluateMaterial :: "Board \<Rightarrow> int" where
  "evaluateMaterial board =
     foldl (\<lambda>score pos.
              case cellAt board (row pos) (col pos) of
                Some piece \<Rightarrow>
                  (let pieceValue = PIECE_VALUES (type piece)
                   in if color piece = BLACK then score + pieceValue else score - pieceValue)
              | None \<Rightarrow> score)
           0 boardPositions"

text \<open>The four counters of \<open>isEndgamePhase\<close>, in the order white queens, black queens,
  white pieces, black pieces.\<close>

definition isEndgamePhase :: "Board \<Rightarrow> bool" where
  "isEndgamePhase board =
     (case foldl (\<lambda>(whiteQueens, blackQueens, whitePieceCount, blackPieceCount) pos.
                    case cellAt board (row pos) (col pos) of
                      Some piece \<Rightarrow>
                        (if color piece = WHITE
                         then ((if type piece = QUEEN then whiteQueens + 1 else whiteQueens),
                               blackQueens, whitePieceCount + 1, blackPieceCount)
                         else (whiteQueens,
                               (if type piece = QUEEN then blackQueens + 1 else blackQueens),
                               whitePieceCount, blackPieceCount + 1))
                    | None \<Rightarrow> (whiteQueens, blackQueens, whitePieceCount, blackPieceCount))
                 (0 :: int, 0 :: int, 0 :: int, 0 :: int) boardPositions of
        (whiteQueens, blackQueens, whitePieceCount, blackPieceCount) \<Rightarrow>
          (whiteQueens = 0 \<and> blackQueens = 0) \<or> (whitePieceCount \<le> 4 \<and> blackPieceCount \<le> 4))"

text \<open>
  The value one piece adds to the positional score. As in the source, \<open>posValue\<close> is
  assigned from the table chosen by the game phase and then assigned again from the table
  of the piece's type at the adjusted square.
\<close>

definition positionValue :: "Board \<Rightarrow> Position \<Rightarrow> Piece \<Rightarrow> int" where
  "positionValue board pos piece =
     (let posValue = (0 :: int);
          posValue =
            (if type piece = KING then
               (let isEndgame = isEndgamePhase board
                in if isEndgame then tableAt kingEndgame (row pos) (col pos)
                   else tableAt (PIECE_SQUARE_TABLES (type piece)) (row pos) (col pos))
             else tableAt (PIECE_SQUARE_TABLES (type piece)) (row pos) (col pos));
          adjustedRow = (if color piece = BLACK then row pos else 7 - row pos);
          adjustedCol = (if color piece = BLACK then col pos else 7 - col pos);
          posValue = tableAt (PIECE_SQUARE_TABLES (type piece)) adjustedRow adjustedCol
      in posValue)"

definition evaluatePositions :: "Board \<Rightarrow> int" where
  "evaluatePositions board =
     foldl (\<lambda>score pos.
              case cellAt board (row pos) (col pos) of
                Some piece \<Rightarrow>
                  (let posValue = positionValue board pos piece
                   in if color piece = BLACK then score + posValue else score - posValue)
              | None \<Rightarrow> score)
           0 boardPositions"

text \<open>
  In the source the third entry of \<open>positions\<close> is written
  \<^verbatim>\<open>{ row: row + pawnDirection, col + 1 }\<close>, without the key \<open>col\<close>, which is not
  well-formed JavaScript. The model reads it as \<open>col: col + 1\<close>, the square that
  completes the three squares in front of the king next to \<open>col - 1\<close> and \<open>col\<close>. Only
  \<open>evaluateKingSafety\<close> uses this function.
\<close>

definition evaluatePawnShield :: "Board \<Rightarrow> Position \<Rightarrow> PieceColor \<Rightarrow> int" where
  "evaluatePawnShield board kingPos kingColor =
     (let pawnDirection = (if kingColor = WHITE then -1 else 1);
          positions =
            [\<lparr>row = row kingPos + pawnDirection, col = col kingPos - 1\<rparr>,
             \<lparr>row = row kingPos + pawnDirection, col = col kingPos\<rparr>,
             \<lparr>row = row kingPos + pawnDirection, col = col kingPos + 1\<rparr>]
      in foldl (\<lambda>score pos.
                  if row pos \<ge> 0 \<and> row pos < BOARD_SIZE \<and> col pos \<ge> 0 \<and> col pos < BOARD_SIZE then
                    (case cellAt board (row pos) (col pos) of
                       Some piece \<Rightarrow>
                         (if type piece = PAWN \<and> color piece = kingColor then score + 10 else score)
                     | None \<Rightarrow> score)
                  else score)
               0 positions)"

text \<open>The king search of \<open>evaluateKingSafety\<close> has no \<open>break\<close>: the last king of each
  colour in row-major order is kept.\<close>

definition evaluateKingSafety :: "Board \<Rightarrow> int" where
  "evaluateKingSafety board =
     (case foldl (\<lambda>(whiteKingPos, blackKingPos) pos.
                    case cellAt board (row pos) (col pos) of
                      Some piece \<Rightarrow>
                        (if type piece = KING then
                           (if color piece = WHITE then (Some pos, blackKingPos)
                            else (whiteKingPos, Some pos))
                         else (whiteKingPos, blackKingPos))
                    | None \<Rightarrow> (whiteKingPos, blackKingPos))
                 (None, None) boardPositions of
        (Some whiteKingPos, Some blackKingPos) \<Rightarrow>
          (let score = (0 :: int);
               score = (if isKingInCheck board WHITE then score + 50 else score);
               score = (if isKingInCheck board BLACK then score - 50 else score);
               score = score + evaluatePawnShield board blackKingPos BLACK;
               score = score - evaluatePawnShield board whiteKingPos WHITE
           in score)
      | _ \<Rightarrow> 0)"

definition evaluateMobility :: "Board \<Rightarrow> int" where
  "evaluateMobility board =
     (case foldl (\<lambda>(whiteMoveCount, blackMoveCount) pos.
                    case cellAt board (row pos) (col pos) of
                      Some piece \<Rightarrow>
                        (let moves = getPossibleMoves board pos None defaultCastlingRights;
                             legalMoves = filterLegalMoves board moves (color piece)
                         in if color piece = WHITE
                            then (whiteMoveCount + int (length legalMoves), blackMoveCount)
                            else (whiteMoveCount, blackMoveCount + int (length legalMoves)))
                    | None \<Rightarrow> (whiteMoveCount, blackMoveCount))
                 (0, 0) boardPositions of
        (whiteMoveCount, blackMoveCount) \<Rightarrow> 0 + blackMoveCount * 2 - whiteMoveCount * 2)"

text \<open>
  \<open>evaluateBoard\<close> calls the four term functions at different points: two before the
  tests for a terminal position, two after them. To state which terms a call computes,
  the model returns, next to the score, the list of the term functions called so far, in
  the order of the calls; \<open>evaluateBoard\<close> itself is the score.
\<close>

datatype EvalCall =
  CallEvaluateMaterial | CallEvaluatePositions | CallEvaluateKingSafety | CallEvaluateMobility

definition evaluateBoardCalls :: "Board \<Rightarrow> int \<times> EvalCall list" where
  "evaluateBoardCalls board =
     (let score = (0 :: int);
          calls = [];
          materialScore = evaluateMaterial board;
          calls = calls @ [CallEvaluateMaterial];
          score = score + materialScore;
          positionScore = evaluatePositions board;
          calls = calls @ [CallEvaluatePositions];
          score = score + positionScore
      in if isCheckmate board WHITE then (10000, calls)
         else if isCheckmate board BLACK then (-10000, calls)
         else if isStalemate board WHITE \<or> isStalemate board BLACK then (0, calls)
         else (let kingScore = evaluateKingSafety board;
                   calls = calls @ [CallEvaluateKingSafety];
                   score = score + kingScore;
                   mobilityScore = evaluateMobility board;
                   calls = calls @ [CallEvaluateMobility];
                   score = score + mobilityScore
               in (score, calls)))"

definition evaluateBoard :: "Board \<Rightarrow> int" where
  "evaluateBoard board = fst (evaluateBoardCalls board)"

section \<open>Search (the evaluation and search module, src/unnamed/part_002)\<close>

text \<open>
  Scores are JavaScript numbers: the integers the evaluator returns, and the two
  infinities the search starts its bounds from.
\<close>

datatype JSNumber = NegInfinity | Finite int | PosInfinity

fun jsLe :: "JSNumber \<Rightarrow> JSNumber \<Rightarrow> bool" where
  "jsLe NegInfinity y = True"
| "jsLe x PosInfinity = True"
| "jsLe (Finite a) (Finite b) = (a \<le> b)"
| "jsLe x y = False"

definition jsLess :: "JSNumber \<Rightarrow> JSNumber \<Rightarrow> bool" where
  "jsLess x y = (\<not> jsLe y x)"

definition jsMax :: "JSNumber \<Rightarrow> JSNumber \<Rightarrow> JSNumber" where
  "jsMax x y = (if jsLe x y then y else x)"

definition jsMin :: "JSNumber \<Rightarrow> JSNumber \<Rightarrow> JSNumber" where
  "jsMin x y = (if jsLe x y then x else y)"

text \<open>
  The loop that \<open>findBestMove\<close> and \<open>minimax\<close> both start with: the legal moves of every
  piece of the player, pushed square by square onto \<open>allMoves\<close>.
\<close>

definition collectLegalMoves ::
  "Board \<Rightarrow> PieceColor \<Rightarrow> Position option \<Rightarrow> CastlingRights \<Rightarrow> Move list" where
  "collectLegalMoves board playerColor enPassantTarget castlingRights =
     concat (map (\<lambda>pos. case cellAt board (row pos) (col pos) of
                          Some piece \<Rightarrow>
                            (if color piece = playerColor then
                               (let possibleMoves =
                                      getPossibleMoves board pos enPassantTarget castlingRights;
                                    legalMoves = filterLegalMoves board possibleMoves playerColor
                                in legalMoves)
                             else [])
                        | None \<Rightarrow> [])
                 boardPositions)"

text \<open>
  \<open>minimax\<close> recurses on \<open>depth - 1\<close> and stops at \<open>depth === 0\<close> or at a terminal
  position, so with a depth below zero nothing bounds the recursion. The model therefore
  carries a fuel: the number of nested calls still allowed. The result is \<open>None\<close> when
  the fuel runs out, and \<open>Some\<close> of the returned number otherwise. \<open>maximize\<close> and
  \<open>minimize\<close> are the two \<open>for\<close> loops over \<open>allMoves\<close>, with the running \<open>alpha\<close>,
  \<open>beta\<close> and best evaluation as arguments, and the \<open>break\<close> of the pruning.
\<close>

function minimax ::
    "nat \<Rightarrow> Board \<Rightarrow> int \<Rightarrow> JSNumber \<Rightarrow> JSNumber \<Rightarrow> bool \<Rightarrow> Position option \<Rightarrow> CastlingRights
      \<Rightarrow> JSNumber option"
  and maximize ::
    "nat \<Rightarrow> Board \<Rightarrow> int \<Rightarrow> JSNumber \<Rightarrow> JSNumber \<Rightarrow> JSNumber \<Rightarrow> Move list \<Rightarrow> Position option
      \<Rightarrow> CastlingRights \<Rightarrow> JSNumber option"
  and minimize ::
    "nat \<Rightarrow> Board \<Rightarrow> int \<Rightarrow> JSNumber \<Rightarrow> JSNumber \<Rightarrow> JSNumber \<Rightarrow> Move list \<Rightarrow> Position option
      \<Rightarrow> CastlingRights \<Rightarrow> JSNumber option"
where
  "minimax fuel board depth alpha beta isMaximizingPlayer enPassantTarget castlingRights =
     (if depth = 0 \<or> isCheckmate board WHITE \<or> isCheckmate board BLACK
         \<or> isStalemate board WHITE \<or> isStalemate board BLACK
      then Some (Finite (evaluateBoard board))
      else
        (let playerColor = (if isMaximizingPlayer then BLACK else WHITE);
             allMoves = collectLegalMoves board playerColor enPassantTarget castlingRights
         in if length allMoves = 0 then Some (Finite (evaluateBoard board))
            else (case fuel of
                    0 \<Rightarrow> None
                  | Suc fuel' \<Rightarrow>
                      (if isMaximizingPlayer
                       then maximize fuel' board depth alpha beta NegInfinity allMoves
                              enPassantTarget castlingRights
                       else minimize fuel' board depth alpha beta PosInfinity allMoves
                              enPassantTarget castlingRights))))"
| "maximize fuel board depth alpha beta maxEval [] enPassantTarget castlingRights = Some maxEval"
| "maximize fuel board depth alpha beta maxEval (move # rest) enPassantTarget castlingRights =
     (let newBoard = applyMove (deepClone board) move
      in case minimax fuel newBoard (depth - 1) alpha beta False enPassantTarget castlingRights of
           None \<Rightarrow> None
         | Some eval \<Rightarrow>
             (let maxEval = jsMax maxEval eval;
                  alpha = jsMax alpha eval
              in if jsLe beta alpha then Some maxEval
                 else maximize fuel board depth alpha beta maxEval rest
                        enPassantTarget castlingRights))"
| "minimize fuel board depth alpha beta minEval [] enPassantTarget castlingRights = Some minEval"
| "minimize fuel board depth alpha beta minEval (move # rest) enPassantTarget castlingRights =
     (let newBoard = applyMove (deepClone board) move
      in case minimax fuel newBoard (depth - 1) alpha beta True enPassantTarget castlingRights of
           None \<Rightarrow> None
         | Some eval \<Rightarrow>
             (let minEval = jsMin minEval eval;
                  beta = jsMin beta eval
              in if jsLe beta alpha then Some minEval
                 else minimize fuel board depth alpha beta minEval rest
                        enPassantTarget castlingRights))"
  by pat_completeness auto
termination
  by (relation "inv_image (less_than <*lex*> less_than)
        (\<lambda>x. case x of
           Inl (fuel, board, depth, alpha, beta, isMax, ep, cr) \<Rightarrow> (fuel, 0)
         | Inr (Inl (fuel, board, depth, alpha, beta, best, moves, ep, cr)) \<Rightarrow>
             (fuel, Suc (length moves))
         | Inr (Inr (fuel, board, depth, alpha, beta, best, moves, ep, cr)) \<Rightarrow>
             (fuel, Suc (length moves)))")
     auto

text \<open>The loop of \<open>findBestMove\<close> over \<open>allMoves\<close>, with \<open>bestMove\<close> and \<open>bestScore\<close>.\<close>

fun bestMoveLoop ::
  "nat \<Rightarrow> Board \<Rightarrow> int \<Rightarrow> bool \<Rightarrow> Position option \<Rightarrow> CastlingRights \<Rightarrow> Move option \<Rightarrow> JSNumber
    \<Rightarrow> Move list \<Rightarrow> Move option option" where
  "bestMoveLoop fuel board depth isBlack enPassantTarget castlingRights bestMove bestScore [] =
     Some bestMove"
| "bestMoveLoop fuel board depth isBlack enPassantTarget castlingRights bestMove bestScore
     (move # rest) =
     (let newBoard = applyMove (deepClone board) move
      in case minimax fuel newBoard (depth - 1) NegInfinity PosInfinity (\<not> isBlack)
                enPassantTarget castlingRights of
           None \<Rightarrow> None
         | Some score \<Rightarrow>
             (if isBlack then
                (if jsLess bestScore score
                 then bestMoveLoop fuel board depth isBlack enPassantTarget castlingRights
                        (Some move) score rest
                 else bestMoveLoop fuel board depth isBlack enPassantTarget castlingRights
                        bestMove bestScore rest)
              else
                (if jsLess score bestScore
                 then bestMoveLoop fuel board depth isBlack enPassantTarget castlingRights
                        (Some move) score rest
                 else bestMoveLoop fuel board depth isBlack enPassantTarget castlingRights
                        bestMove bestScore rest)))"

text \<open>
  \<open>findBestMove\<close>: \<open>Some None\<close> is the returned \<open>null\<close>, \<open>Some (Some move)\<close> a returned
  move, and \<open>None\<close> a search that ran out of fuel.
\<close>

definition findBestMove ::
  "nat \<Rightarrow> Board \<Rightarrow> int \<Rightarrow> bool \<Rightarrow> Position option \<Rightarrow> CastlingRights \<Rightarrow> Move option option" where
  "findBestMove fuel board depth isBlack enPassantTarget castlingRights =
     (let playerColor = (if isBlack then BLACK else WHITE);
          allMoves = collectLegalMoves board playerColor enPassantTarget castlingRights
      in if length allMoves = 0 then Some None
         else bestMoveLoop fuel board depth isBlack enPassantTarget castlingRights
                None (if isBlack then NegInfinity else PosInfinity) allMoves)"

section \<open>Decomposition of applyMove\<close>

text \<open>
  The writes of \<open>applyMove\<close> one group at a time, for the proofs: the origin and the
  destination, then the rook of a castling move, then the pawn taken en passant.
\<close>

definition writtenPiece :: "Move \<Rightarrow> Piece" where
  "writtenPiece m =
     (if moveType m = PROMOTION \<or> moveType m = CAPTURE_AND_PROMOTION
      then \<lparr>type = (case promotionPieceType m of Some t \<Rightarrow> t | None \<Rightarrow> QUEEN),
            color = color (movePiece m), hasMoved = True\<rparr>
      else (movePiece m)\<lparr>hasMoved := True\<rparr>)"

definition afterDestination :: "Board \<Rightarrow> Move \<Rightarrow> Board" where
  "afterDestination board m =
     setCell (setCell board (row (moveFrom m)) (col (moveFrom m)) None)
       (row (moveTo m)) (col (moveTo m)) (Some (writtenPiece m))"

definition afterCastling :: "Board \<Rightarrow> Move \<Rightarrow> Board" where
  "afterCastling b m =
     (if moveType m = CASTLE_KINGSIDE \<or> moveType m = CASTLE_QUEENSIDE
      then (case (castlingRookFrom m, castlingRookTo m) of
              (Some rookFrom, Some rookTo) \<Rightarrow>
                (case cellAt b (row rookFrom) (col rookFrom) of
                   Some r \<Rightarrow> setCell (setCell b (row rookFrom) (col rookFrom) None)
                              (row rookTo) (col rookTo) (Some (r\<lparr>hasMoved := True\<rparr>))
                 | None \<Rightarrow> setCell b (row rookFrom) (col rookFrom) None)
            | _ \<Rightarrow> b)
      else b)"

definition afterEnPassant :: "Board \<Rightarrow> Move \<Rightarrow> Board" where
  "afterEnPassant b m =
     (if moveType m = EN_PASSANT
      then (case enPassantCapturePos m of
              Some capturePos \<Rightarrow> setCell b (row capturePos) (col capturePos) None
            | None \<Rightarrow> b)
      else b)"

section \<open>Example positions\<close>

text \<open>
  Concrete boards and moves on which the theorems below are instantiated. Row 0 is the
  eighth rank, column 0 the a-file.
\<close>

definition emptyBoard :: Board where
  "emptyBoard = replicate 8 (replicate 8 None)"

definition placePiece :: "Board \<Rightarrow> int \<Rightarrow> int \<Rightarrow> PieceType \<Rightarrow> PieceColor \<Rightarrow> bool \<Rightarrow> Board" where
  "placePiece board r c t cl m = setCell board r c (Some \<lparr>type = t, color = cl, hasMoved = m\<rparr>)"

text \<open>White king h1, black queen g2 guarded by the black king on h3: White is mated.\<close>

definition backRankMate :: Board where
  "backRankMate =
     placePiece (placePiece (placePiece emptyBoard 7 7 KING WHITE True) 6 6 QUEEN BLACK True)
       5 7 KING BLACK True"

text \<open>Black king a8, white queen b7 guarded by the white king on a6: Black is mated.\<close>

definition blackMated :: Board where
  "blackMated =
     placePiece (placePiece (placePiece emptyBoard 0 0 KING BLACK True) 1 1 QUEEN WHITE True)
       2 0 KING WHITE True"

text \<open>Black king a8, white queen b6, white king h1: Black is not in check and cannot move.\<close>

definition blackStalemated :: Board where
  "blackStalemated =
     placePiece (placePiece (placePiece emptyBoard 0 0 KING BLACK True) 2 1 QUEEN WHITE True)
       7 7 KING WHITE True"

text \<open>
  Both kings attacked by a guarded queen next to them, and neither side able to answer:
  White (king h1, queen b7, bishop c6) and Black (king a8, queen g2, bishop f3).
\<close>

definition bothMated :: Board where
  "bothMated =
     placePiece (placePiece (placePiece (placePiece (placePiece (placePiece emptyBoard
       7 7 KING WHITE True) 6 6 QUEEN BLACK True) 5 5 BISHOP BLACK True)
       0 0 KING BLACK True) 1 1 QUEEN WHITE True) 2 2 BISHOP WHITE True"

text \<open>
  Black (king c3, shut in by its own pawns b3, c4, d4, d3 and c2) is in check from the
  white knights a2 and b1 and cannot answer; White (king a1) is not in check and cannot
  move either: each knight is pinned by a black rook (a8, h1) and b2 is guarded by the
  black king.
\<close>

definition matedAndStalemated :: Board where
  "matedAndStalemated =
     placePiece (placePiece (placePiece (placePiece (placePiece (placePiece (placePiece
     (placePiece (placePiece (placePiece (placePiece emptyBoard
       7 0 KING WHITE True) 6 0 KNIGHT WHITE True) 7 1 KNIGHT WHITE True)
       5 2 KING BLACK True) 0 0 ROOK BLACK True) 7 7 ROOK BLACK True)
       4 2 PAWN BLACK True) 4 3 PAWN BLACK True) 5 1 PAWN BLACK True)
       5 3 PAWN BLACK True) 6 2 PAWN BLACK True"

text \<open>Black king d5 and white king g1, nothing else.\<close>

definition twoKings :: Board where
  "twoKings = placePiece (placePiece emptyBoard 3 3 KING BLACK True) 7 6 KING WHITE True"

text \<open>White king h1, black rook g8, black king a8: the rook holds the g-file.\<close>

definition rookFile :: Board where
  "rookFile =
     placePiece (placePiece (placePiece emptyBoard 7 7 KING WHITE True) 0 6 ROOK BLACK True)
       0 0 KING BLACK True"

text \<open>A white pawn on d7 with d8 empty and a black knight on e8.\<close>

definition promotionBoard :: Board where
  "promotionBoard =
     placePiece (placePiece (placePiece (placePiece emptyBoard 1 3 PAWN WHITE True)
       0 4 KNIGHT BLACK True) 7 4 KING WHITE True) 0 7 KING BLACK True"

text \<open>White king e1 and rook h1, neither moved, with f1 and g1 empty.\<close>

definition castlingBoard :: Board where
  "castlingBoard =
     placePiece (placePiece (placePiece emptyBoard 7 4 KING WHITE False) 7 7 ROOK WHITE False)
       0 4 KING BLACK True"

text \<open>A board without a white king: black king e8, white rook e1.\<close>

definition noWhiteKing :: Board where
  "noWhiteKing = placePiece (placePiece emptyBoard 0 4 KING BLACK True) 7 4 ROOK WHITE True"

text \<open>On \<open>castlingBoard\<close>: the white king steps from e1 to e2.\<close>

definition kingStep :: Move where
  "kingStep =
     \<lparr>moveFrom = \<lparr>row = 7, col = 4\<rparr>, moveTo = \<lparr>row = 6, col = 4\<rparr>, moveType = NORMAL,
      movePiece = \<lparr>type = KING, color = WHITE, hasMoved = False\<rparr>, capturedPiece = None,
      promotionPieceType = None, castlingRookFrom = None, castlingRookTo = None,
      enPassantCapturePos = None\<rparr>"

text \<open>On \<open>castlingBoard\<close>: the king-side castling move the generator produces.\<close>

definition castleKingside :: Move where
  "castleKingside =
     \<lparr>moveFrom = \<lparr>row = 7, col = 4\<rparr>, moveTo = \<lparr>row = 7, col = 6\<rparr>,
      moveType = CASTLE_KINGSIDE,
      movePiece = \<lparr>type = KING, color = WHITE, hasMoved = False\<rparr>, capturedPiece = None,
      promotionPieceType = None, castlingRookFrom = Some \<lparr>row = 7, col = 7\<rparr>,
      castlingRookTo = Some \<lparr>row = 7, col = 5\<rparr>, enPassantCapturePos = None\<rparr>"

text \<open>
  \<open>promotionBoard\<close> with a black pawn on e7, beside the white pawn.
\<close>

definition promotionBesidePawn :: Board where
  "promotionBesidePawn = placePiece promotionBoard 1 4 PAWN BLACK True"

text \<open>
  Four positions of two kings, each reached from the one before by the first legal move
  of the side to move (Black in A and C, White in B and D), the last leading back to the
  first: A has the black king on h8 and the white king on h6; in B the black king has gone
  to g8; in C the white king has gone to h5; in D the black king is back on h8.
\<close>

definition kingsCycleA :: Board where
  "kingsCycleA = placePiece (placePiece emptyBoard 0 7 KING BLACK True) 2 7 KING WHITE True"

definition kingsCycleB :: Board where
  "kingsCycleB = placePiece (placePiece emptyBoard 0 6 KING BLACK True) 2 7 KING WHITE True"

definition kingsCycleC :: Board where
  "kingsCycleC = placePiece (placePiece emptyBoard 0 6 KING BLACK True) 3 7 KING WHITE True"

definition kingsCycleD :: Board where
  "kingsCycleD = placePiece (placePiece emptyBoard 0 7 KING BLACK True) 3 7 KING WHITE True"

text \<open>
  The board after the first of the legal moves that \<open>findBestMove\<close> and \<open>minimax\<close>
  collect for a colour (with no en-passant target and the default castling rights), the
  first board their loops search; \<open>None\<close> when there is no legal move.
\<close>

definition firstChild :: "Board \<Rightarrow> PieceColor \<Rightarrow> Board option" where
  "firstChild board playerColor =
     (case collectLegalMoves board playerColor None defaultCastlingRights of
        [] \<Rightarrow> None
      | move # rest \<Rightarrow> Some (applyMove (deepClone board) move))"

section \<open>Basic facts about the grid\<close>

declare minimax.simps [simp del]

lemma isValidPosition_iff:
  "isValidPosition p \<longleftrightarrow> 0 \<le> row p \<and> row p < 8 \<and> 0 \<le> col p \<and> col p < 8"
  by (auto simp: isValidPosition_def BOARD_SIZE_def)

lemma set_boardPositions: "set boardPositions = {pos. isValidPosition pos}"
proof -
  have "pos \<in> set boardPositions \<longleftrightarrow> isValidPosition pos" for pos :: Position
  proof
    assume "pos \<in> set boardPositions"
    then show "isValidPosition pos"
      by (auto simp: boardPositions_def isValidPosition_iff BOARD_SIZE_def)
  next
    assume v: "isValidPosition pos"
    then have r: "row pos \<in> {0..7}" and c: "col pos \<in> {0..7}"
      by (auto simp: isValidPosition_iff)
    have "pos \<in> (\<lambda>c. \<lparr>row = row pos, col = c\<rparr>) ` {0..7}"
      using c by (intro image_eqI[where x = "col pos"]) simp_all
    with r show "pos \<in> set boardPositions"
      unfolding boardPositions_def BOARD_SIZE_def by fastforce
  qed
  then show ?thesis by auto
qed

lemma wellFormedBoard_setCell:
  "wellFormedBoard board \<Longrightarrow> wellFormedBoard (setCell board r c v)"
  by (auto simp: wellFormedBoard_def setCell_def list_all_iff dest!: set_update_subset_insert[THEN subsetD])

lemma cellAt_setCell:
  assumes "wellFormedBoard board" "0 \<le> r" "r < 8" "0 \<le> c" "c < 8"
  shows "cellAt (setCell board r c v) r' c' = (if r' = r \<and> c' = c then v else cellAt board r' c')"
proof -
  from assms have len: "length board = 8" and rows: "\<And>i. i < 8 \<Longrightarrow> length (board ! i) = 8"
    by (auto simp: wellFormedBoard_def BOARD_SIZE_def list_all_length)
  from assms len rows[of "nat r"] have upd:
    "setCell board r c v = board[nat r := (board ! nat r)[nat c := v]]"
    by (simp add: setCell_def)
  show ?thesis
  proof (cases "0 \<le> r' \<and> r' < 8 \<and> 0 \<le> c' \<and> c' < 8")
    case True
    then have "nat r' < 8" "nat c' < 8" by auto
    with True assms len rows[of "nat r'"] rows[of "nat r"] show ?thesis
      unfolding upd cellAt_def
      by (auto simp: nth_list_update nat_eq_iff)
  next
    case False
    with assms len rows show ?thesis
      unfolding upd cellAt_def
      by (auto simp: nth_list_update)
  qed
qed

lemma setCell_preserves:
  assumes "wellFormedBoard b" "isValidPosition p"
    and "\<And>q. v = Some q \<Longrightarrow> P (row p) (col p) q"
    and "\<And>r c q. cellAt b r c = Some q \<Longrightarrow> P r c q"
    and "cellAt (setCell b (row p) (col p) v) r c = Some q"
  shows "P r c q"
  using assms by (auto simp: cellAt_setCell isValidPosition_iff split: if_splits)

lemma cells_all:
  assumes "\<forall>rw \<in> set board. \<forall>cell \<in> set rw. (case cell of Some p \<Rightarrow> P p | None \<Rightarrow> True)"
    and "cellAt board r c = Some piece"
  shows "P piece"
proof -
  from assms(2) have rng: "0 \<le> r" "r < int (length board)" "0 \<le> c"
      "c < int (length (board ! nat r))" and v: "board ! nat r ! nat c = Some piece"
    by (auto simp: cellAt_def split: if_splits)
  from rng have "nat r < length board" "nat c < length (board ! nat r)" by auto
  then have "board ! nat r \<in> set board" "board ! nat r ! nat c \<in> set (board ! nat r)"
    by (simp_all only: nth_mem)
  with assms(1) v show ?thesis by fastforce
qed

section \<open>Checkmate is check without a legal move\<close>

lemma findKing_None_iff:
  "findKing board kingColor ps = None \<longleftrightarrow>
     (\<forall>pos \<in> set ps. \<forall>piece. cellAt board (row pos) (col pos) = Some piece
        \<longrightarrow> \<not> (type piece = KING \<and> color piece = kingColor))"
  by (induction ps) (auto split: option.splits)

lemma noLegalMoveFrom_iff:
  "noLegalMoveFrom board playerColor ps \<longleftrightarrow>
     (\<forall>pos \<in> set ps. \<forall>piece. cellAt board (row pos) (col pos) = Some piece \<and> color piece = playerColor
        \<longrightarrow> filterLegalMoves board (getPossibleMoves board pos None defaultCastlingRights) playerColor = [])"
  by (induction ps) (auto simp: Let_def split: option.splits)

lemma filterLegalMoves_append:
  "filterLegalMoves board (xs @ ys) c = filterLegalMoves board xs c @ filterLegalMoves board ys c"
  by (simp add: filterLegalMoves_def)

lemma filterLegalMoves_concat:
  "filterLegalMoves board (concat xss) c = concat (map (\<lambda>xs. filterLegalMoves board xs c) xss)"
  by (induction xss) (simp_all add: filterLegalMoves_append, simp add: filterLegalMoves_def)

lemma filterLegalMoves_allMovesOf_empty_iff:
  "filterLegalMoves board (allMovesOf board playerColor) playerColor = [] \<longleftrightarrow>
     noLegalMoveFrom board playerColor boardPositions"
  unfolding noLegalMoveFrom_iff allMovesOf_def filterLegalMoves_concat
  by (auto simp: filterLegalMoves_def split: option.splits if_splits)

text \<open>
  Claim C1. On an 8 x 8 board, \<open>isCheckmate board playerColor\<close> is true exactly when
  \<open>isKingInCheck board playerColor\<close> is true and the union, over every square holding a
  piece of that colour, of \<open>filterLegalMoves\<close> applied to that piece's pseudo-legal moves
  is empty. The second conjunct says the same with the moves of all pieces collected first
  (\<open>allMovesOf\<close>) and filtered once.
\<close>

theorem isCheckmate_iff:
  assumes "wellFormedBoard board"
  shows "(isCheckmate board playerColor \<longleftrightarrow>
           isKingInCheck board playerColor
           \<and> (\<Union>pos \<in> {pos. isValidPosition pos
                             \<and> (\<exists>piece. cellAt board (row pos) (col pos) = Some piece
                                        \<and> color piece = playerColor)}.
                 set (filterLegalMoves board
                        (getPossibleMoves board pos None defaultCastlingRights) playerColor)) = {})
       \<and> (isCheckmate board playerColor \<longleftrightarrow>
           isKingInCheck board playerColor
           \<and> filterLegalMoves board (allMovesOf board playerColor) playerColor = [])"
  unfolding filterLegalMoves_allMovesOf_empty_iff
  by (auto simp: isCheckmate_def noLegalMoveFrom_iff set_boardPositions)

theorem isCheckmate_iff_witness:
  "wellFormedBoard backRankMate \<and> isCheckmate backRankMate WHITE
   \<and> isKingInCheck backRankMate WHITE
   \<and> filterLegalMoves backRankMate (allMovesOf backRankMate WHITE) WHITE = []"
proof -
  have wf: "wellFormedBoard backRankMate" by code_simp
  have cm: "isCheckmate backRankMate WHITE" by code_simp
  from isCheckmate_iff[OF wf, of WHITE] cm wf show ?thesis by simp
qed

section \<open>The legality filter\<close>

text \<open>
  Claim C2. \<open>filterLegalMoves\<close> keeps exactly the candidate moves after which, applied to
  a copy of the board, the player's king is not in check: a move is in the result if and
  only if it is a candidate and \<open>isKingInCheck\<close> is false on the resulting board. The
  candidates that remain keep their order and multiplicity.
\<close>

theorem filterLegalMoves_exact:
  assumes "wellFormedBoard board" and "list_all validMove moves"
  shows "filterLegalMoves board moves currentPlayer
           = filter (\<lambda>move. \<not> isKingInCheck (applyMove (deepClone board) move) currentPlayer) moves
       \<and> (\<forall>move. move \<in> set (filterLegalMoves board moves currentPlayer) \<longleftrightarrow>
              move \<in> set moves
              \<and> \<not> isKingInCheck (applyMove (deepClone board) move) currentPlayer)"
  by (simp add: filterLegalMoves_def)

theorem filterLegalMoves_exact_witness:
  "wellFormedBoard rookFile
   \<and> list_all validMove (getPossibleMoves rookFile \<lparr>row = 7, col = 7\<rparr> None defaultCastlingRights)
   \<and> map moveTo (getPossibleMoves rookFile \<lparr>row = 7, col = 7\<rparr> None defaultCastlingRights)
       = [\<lparr>row = 6, col = 7\<rparr>, \<lparr>row = 7, col = 6\<rparr>, \<lparr>row = 6, col = 6\<rparr>]
   \<and> map moveTo (filter (\<lambda>move. \<not> isKingInCheck (applyMove (deepClone rookFile) move) WHITE)
         (getPossibleMoves rookFile \<lparr>row = 7, col = 7\<rparr> None defaultCastlingRights))
       = [\<lparr>row = 6, col = 7\<rparr>]"
proof -
  let ?ms = "getPossibleMoves rookFile \<lparr>row = 7, col = 7\<rparr> None defaultCastlingRights"
  have wf: "wellFormedBoard rookFile" by code_simp
  have vm: "list_all validMove ?ms" by code_simp
  have all: "map moveTo ?ms = [\<lparr>row = 6, col = 7\<rparr>, \<lparr>row = 7, col = 6\<rparr>, \<lparr>row = 6, col = 6\<rparr>]"
    by code_simp
  have ev: "map moveTo (filterLegalMoves rookFile ?ms WHITE) = [\<lparr>row = 6, col = 7\<rparr>]"
    by code_simp
  from filterLegalMoves_exact[OF wf vm, of WHITE] have
    "filterLegalMoves rookFile ?ms WHITE
       = filter (\<lambda>move. \<not> isKingInCheck (applyMove (deepClone rookFile) move) WHITE) ?ms"
    by blast
  with wf vm all ev show ?thesis by simp
qed

section \<open>A board without a king\<close>

text \<open>
  Claim C9. On an 8 x 8 board that holds no king of the queried colour,
  \<open>isKingInCheck\<close> returns false: the search for the king ends with no square found
  and the function returns before any move is generated.
\<close>

theorem isKingInCheck_without_king:
  assumes "wellFormedBoard board"
    and "\<forall>r c piece. cellAt board r c = Some piece \<longrightarrow> \<not> (type piece = KING \<and> color piece = kingColor)"
  shows "isKingInCheck board kingColor = False"
proof -
  from assms(2) have "findKing board kingColor boardPositions = None"
    unfolding findKing_None_iff by blast
  then show ?thesis by (simp add: isKingInCheck_def)
qed

theorem isKingInCheck_without_king_witness:
  "wellFormedBoard noWhiteKing
   \<and> cellAt noWhiteKing 0 4 = Some \<lparr>type = KING, color = BLACK, hasMoved = True\<rparr>
   \<and> \<not> (\<exists>r c piece. cellAt noWhiteKing r c = Some piece
              \<and> type piece = KING \<and> color piece = WHITE)
   \<and> isKingInCheck noWhiteKing WHITE = False"
proof -
  have wf: "wellFormedBoard noWhiteKing" by code_simp
  have bk: "cellAt noWhiteKing 0 4 = Some \<lparr>type = KING, color = BLACK, hasMoved = True\<rparr>"
    by code_simp
  have "\<forall>rw \<in> set noWhiteKing. \<forall>cell \<in> set rw.
          (case cell of Some p \<Rightarrow> \<not> (type p = KING \<and> color p = WHITE) | None \<Rightarrow> True)"
    by code_simp
  then have nk: "\<forall>r c piece. cellAt noWhiteKing r c = Some piece
         \<longrightarrow> \<not> (type piece = KING \<and> color piece = WHITE)"
    using cells_all[of noWhiteKing "\<lambda>p. \<not> (type p = KING \<and> color p = WHITE)"] by blast
  from isKingInCheck_without_king[OF wf nk] wf nk bk show ?thesis by blast
qed

section \<open>The effect of applyMove\<close>

text \<open>
  Claim C10. For a move of type normal or capture between squares of the grid,
  \<open>applyMove\<close> leaves the moved piece with \<open>hasMoved\<close> true on the destination, leaves
  the origin empty (when origin and destination differ, as they do for every generated
  move; the destination is written last), and changes no other cell; the board stays
  8 x 8.
\<close>

theorem applyMove_frame:
  assumes wf: "wellFormedBoard board"
    and vf: "isValidPosition (moveFrom m)" and vt: "isValidPosition (moveTo m)"
    and ty: "moveType m = NORMAL \<or> moveType m = CAPTURE"
  shows "cellAt (applyMove board m) (row (moveTo m)) (col (moveTo m))
           = Some ((movePiece m)\<lparr>hasMoved := True\<rparr>)
       \<and> (row (moveFrom m) \<noteq> row (moveTo m) \<or> col (moveFrom m) \<noteq> col (moveTo m)
            \<longrightarrow> cellAt (applyMove board m) (row (moveFrom m)) (col (moveFrom m)) = None)
       \<and> (\<forall>r c. \<not> (r = row (moveFrom m) \<and> c = col (moveFrom m))
                \<and> \<not> (r = row (moveTo m) \<and> c = col (moveTo m))
              \<longrightarrow> cellAt (applyMove board m) r c = cellAt board r c)
       \<and> wellFormedBoard (applyMove board m)"
proof -
  let ?b1 = "setCell board (row (moveFrom m)) (col (moveFrom m)) None"
  have eq: "applyMove board m
      = setCell ?b1 (row (moveTo m)) (col (moveTo m)) (Some ((movePiece m)\<lparr>hasMoved := True\<rparr>))"
    using ty by (auto simp: applyMove_def Let_def)
  have wf1: "wellFormedBoard ?b1" using wf by (rule wellFormedBoard_setCell)
  from vf vt have rng: "0 \<le> row (moveFrom m)" "row (moveFrom m) < 8" "0 \<le> col (moveFrom m)"
     "col (moveFrom m) < 8" "0 \<le> row (moveTo m)" "row (moveTo m) < 8" "0 \<le> col (moveTo m)"
     "col (moveTo m) < 8"
    by (simp_all add: isValidPosition_iff)
  have rd: "cellAt (applyMove board m) r c =
      (if r = row (moveTo m) \<and> c = col (moveTo m) then Some ((movePiece m)\<lparr>hasMoved := True\<rparr>)
       else if r = row (moveFrom m) \<and> c = col (moveFrom m) then None else cellAt board r c)" for r c
    unfolding eq using rng by (simp add: cellAt_setCell[OF wf1] cellAt_setCell[OF wf])
  have "wellFormedBoard (applyMove board m)"
    unfolding eq using wf1 by (rule wellFormedBoard_setCell)
  then show ?thesis by (auto simp: rd)
qed

theorem applyMove_frame_witness:
  "wellFormedBoard castlingBoard \<and> isValidPosition (moveFrom kingStep)
   \<and> isValidPosition (moveTo kingStep) \<and> moveType kingStep = NORMAL
   \<and> cellAt castlingBoard 7 4 = Some \<lparr>type = KING, color = WHITE, hasMoved = False\<rparr>
   \<and> cellAt (applyMove castlingBoard kingStep) 6 4
       = Some \<lparr>type = KING, color = WHITE, hasMoved = True\<rparr>
   \<and> cellAt (applyMove castlingBoard kingStep) 7 4 = None
   \<and> cellAt (applyMove castlingBoard kingStep) 7 7 = cellAt castlingBoard 7 7"
proof -
  have wf: "wellFormedBoard castlingBoard" by code_simp
  have vf: "isValidPosition (moveFrom kingStep)" by code_simp
  have vt: "isValidPosition (moveTo kingStep)" by code_simp
  have ty: "moveType kingStep = NORMAL \<or> moveType kingStep = CAPTURE" by code_simp
  have k: "cellAt castlingBoard 7 4 = Some \<lparr>type = KING, color = WHITE, hasMoved = False\<rparr>"
    by code_simp
  from applyMove_frame[OF wf vf vt ty] wf vf vt k show ?thesis
    by (simp add: kingStep_def)
qed

lemma applyMove_steps:
  "applyMove board m = afterEnPassant (afterCastling (afterDestination board m) m) m"
  by (simp add: applyMove_def afterEnPassant_def afterCastling_def afterDestination_def
        writtenPiece_def Let_def split: option.splits)

lemma hasMoved_writtenPiece: "hasMoved (writtenPiece m)"
  by (simp add: writtenPiece_def)

lemma wellFormedBoard_afterDestination:
  "wellFormedBoard b \<Longrightarrow> wellFormedBoard (afterDestination b m)"
  by (simp add: afterDestination_def wellFormedBoard_setCell)

lemma wellFormedBoard_afterCastling:
  "wellFormedBoard b \<Longrightarrow> wellFormedBoard (afterCastling b m)"
  by (simp add: afterCastling_def wellFormedBoard_setCell split: option.splits)

lemma wellFormedBoard_afterEnPassant:
  "wellFormedBoard b \<Longrightarrow> wellFormedBoard (afterEnPassant b m)"
  by (simp add: afterEnPassant_def wellFormedBoard_setCell split: option.splits)

lemma wellFormedBoard_applyMove:
  "wellFormedBoard b \<Longrightarrow> wellFormedBoard (applyMove b m)"
  by (simp add: applyMove_steps wellFormedBoard_afterDestination wellFormedBoard_afterCastling
        wellFormedBoard_afterEnPassant)

lemma afterDestination_preserves:
  assumes "wellFormedBoard b" "validMove m"
    and "\<And>r c q. hasMoved q \<Longrightarrow> P r c q"
    and "\<And>r c q. cellAt b r c = Some q \<Longrightarrow> P r c q"
    and "cellAt (afterDestination b m) r c = Some q"
  shows "P r c q"
proof -
  have v: "isValidPosition (moveFrom m)" "isValidPosition (moveTo m)"
    using assms(2) by (simp_all add: validMove_def)
  let ?b1 = "setCell b (row (moveFrom m)) (col (moveFrom m)) None"
  have 1: "P r c q" if "cellAt ?b1 r c = Some q" for r c q
    using setCell_preserves[OF assms(1) v(1) _ _ that, of P] assms(4) by simp
  show ?thesis
    using setCell_preserves[OF wellFormedBoard_setCell[OF assms(1)] v(2) _ _ assms(5)[unfolded afterDestination_def], of P]
      1 assms(3) hasMoved_writtenPiece by blast
qed

lemma afterCastling_preserves:
  assumes "wellFormedBoard b" "validMove m"
    and "\<And>r c q. hasMoved q \<Longrightarrow> P r c q"
    and "\<And>r c q. cellAt b r c = Some q \<Longrightarrow> P r c q"
    and "cellAt (afterCastling b m) r c = Some q"
  shows "P r c q"
proof (cases "(moveType m = CASTLE_KINGSIDE \<or> moveType m = CASTLE_QUEENSIDE)
      \<and> castlingRookFrom m \<noteq> None \<and> castlingRookTo m \<noteq> None")
  case False
  then have "afterCastling b m = b"
    by (auto simp: afterCastling_def split: option.splits)
  with assms show ?thesis by simp
next
  case True
  then obtain rf rt where rf: "castlingRookFrom m = Some rf" and rt: "castlingRookTo m = Some rt"
    by auto
  have v: "isValidPosition rf" "isValidPosition rt"
    using assms(2) rf rt by (simp_all add: validMove_def)
  let ?b1 = "setCell b (row rf) (col rf) None"
  have 1: "P r c q" if "cellAt ?b1 r c = Some q" for r c q
    using setCell_preserves[OF assms(1) v(1) _ _ that, of P] assms(4) by simp
  show ?thesis
  proof (cases "cellAt b (row rf) (col rf)")
    case None
    with True rf rt have "afterCastling b m = ?b1" by (simp add: afterCastling_def)
    with assms(5) 1 show ?thesis by simp
  next
    case (Some rook)
    with True rf rt have e: "afterCastling b m
        = setCell ?b1 (row rt) (col rt) (Some (rook\<lparr>hasMoved := True\<rparr>))"
      by (simp add: afterCastling_def)
    show ?thesis
      using setCell_preserves[OF wellFormedBoard_setCell[OF assms(1)] v(2) _ _ assms(5)[unfolded e], of P]
        1 assms(3) by simp
  qed
qed

lemma afterEnPassant_preserves:
  assumes "wellFormedBoard b" "validMove m"
    and "\<And>r c q. cellAt b r c = Some q \<Longrightarrow> P r c q"
    and "cellAt (afterEnPassant b m) r c = Some q"
  shows "P r c q"
proof (cases "moveType m = EN_PASSANT \<and> enPassantCapturePos m \<noteq> None")
  case False
  then have "afterEnPassant b m = b"
    by (auto simp: afterEnPassant_def split: option.splits)
  with assms show ?thesis by simp
next
  case True
  then obtain ep where ep: "enPassantCapturePos m = Some ep" by auto
  have v: "isValidPosition ep" using assms(2) ep by (simp add: validMove_def)
  from True ep have e: "afterEnPassant b m = setCell b (row ep) (col ep) None"
    by (simp add: afterEnPassant_def)
  show ?thesis
    using setCell_preserves[OF assms(1) v _ _ assms(4)[unfolded e], of P] assms(3) by simp
qed

lemma applyMove_preserves:
  assumes wf: "wellFormedBoard b" and vm: "validMove m"
    and hm: "\<And>r c q. hasMoved q \<Longrightarrow> P r c q"
    and old: "\<And>r c q. cellAt b r c = Some q \<Longrightarrow> P r c q"
    and rd: "cellAt (applyMove b m) r c = Some q"
  shows "P r c q"
proof -
  have 1: "P r c q" if "cellAt (afterDestination b m) r c = Some q" for r c q
    using afterDestination_preserves[OF wf vm hm old that] .
  have 2: "P r c q" if "cellAt (afterCastling (afterDestination b m) m) r c = Some q" for r c q
    using afterCastling_preserves[OF wellFormedBoard_afterDestination[OF wf] vm hm 1 that] .
  show ?thesis
    using afterEnPassant_preserves[OF
        wellFormedBoard_afterCastling[OF wellFormedBoard_afterDestination[OF wf]] vm 2
        rd[unfolded applyMove_steps]] .
qed

lemma cellAt_afterDestination:
  assumes "wellFormedBoard b" "validMove m"
  shows "cellAt (afterDestination b m) r c =
     (if r = row (moveTo m) \<and> c = col (moveTo m) then Some (writtenPiece m)
      else if r = row (moveFrom m) \<and> c = col (moveFrom m) then None else cellAt b r c)"
  using assms
  by (simp add: afterDestination_def validMove_def isValidPosition_iff cellAt_setCell
        wellFormedBoard_setCell)

lemma afterCastling_keeps_occupied:
  assumes wf: "wellFormedBoard b" and vm: "validMove m"
    and nf: "\<And>rf. castlingRookFrom m = Some rf \<Longrightarrow> \<not> (r = row rf \<and> c = col rf)"
    and occ: "cellAt b r c = Some q"
  shows "\<exists>q'. cellAt (afterCastling b m) r c = Some q'"
proof (cases "(moveType m = CASTLE_KINGSIDE \<or> moveType m = CASTLE_QUEENSIDE)
      \<and> castlingRookFrom m \<noteq> None \<and> castlingRookTo m \<noteq> None")
  case False
  then have "afterCastling b m = b"
    by (auto simp: afterCastling_def split: option.splits)
  with occ show ?thesis by simp
next
  case True
  then obtain rf rt where rf: "castlingRookFrom m = Some rf" and rt: "castlingRookTo m = Some rt"
    by auto
  have v: "0 \<le> row rf" "row rf < 8" "0 \<le> col rf" "col rf < 8"
          "0 \<le> row rt" "row rt < 8" "0 \<le> col rt" "col rt < 8"
    using vm rf rt by (simp_all add: validMove_def isValidPosition_iff)
  from nf[OF rf] occ True rf rt v wf show ?thesis
    by (cases "cellAt b (row rf) (col rf)")
       (auto simp: afterCastling_def cellAt_setCell wellFormedBoard_setCell)
qed

lemma afterEnPassant_keeps_occupied:
  assumes wf: "wellFormedBoard b" and vm: "validMove m"
    and nf: "\<And>ep. enPassantCapturePos m = Some ep \<Longrightarrow> \<not> (r = row ep \<and> c = col ep)"
    and occ: "cellAt b r c = Some q"
  shows "cellAt (afterEnPassant b m) r c = Some q"
proof (cases "enPassantCapturePos m")
  case None
  with occ show ?thesis by (simp add: afterEnPassant_def)
next
  case (Some ep)
  have v: "0 \<le> row ep" "row ep < 8" "0 \<le> col ep" "col ep < 8"
    using vm Some by (simp_all add: validMove_def isValidPosition_iff)
  from nf[OF Some] occ Some v wf show ?thesis
    by (auto simp: afterEnPassant_def cellAt_setCell)
qed

lemma applyMove_destination_occupied:
  assumes wf: "wellFormedBoard b" and vm: "validMove m"
    and nrf: "\<And>rf. castlingRookFrom m = Some rf
               \<Longrightarrow> \<not> (row (moveTo m) = row rf \<and> col (moveTo m) = col rf)"
    and nep: "\<And>ep. enPassantCapturePos m = Some ep
               \<Longrightarrow> \<not> (row (moveTo m) = row ep \<and> col (moveTo m) = col ep)"
  shows "\<exists>q. cellAt (applyMove b m) (row (moveTo m)) (col (moveTo m)) = Some q"
proof -
  have 1: "cellAt (afterDestination b m) (row (moveTo m)) (col (moveTo m))
             = Some (writtenPiece m)"
    by (simp add: cellAt_afterDestination[OF wf vm])
  obtain q' where 2:
    "cellAt (afterCastling (afterDestination b m) m) (row (moveTo m)) (col (moveTo m)) = Some q'"
    using afterCastling_keeps_occupied[OF wellFormedBoard_afterDestination[OF wf] vm nrf 1]
    by blast
  show ?thesis
    unfolding applyMove_steps
    using afterEnPassant_keeps_occupied[OF
        wellFormedBoard_afterCastling[OF wellFormedBoard_afterDestination[OF wf]] vm nep 2]
    by blast
qed

lemma applyMove_destination_hasMoved:
  assumes wf: "wellFormedBoard b" and vm: "validMove m"
    and rd: "cellAt (applyMove b m) (row (moveTo m)) (col (moveTo m)) = Some q"
  shows "hasMoved q"
proof -
  let ?P = "\<lambda>r c q. r = row (moveTo m) \<and> c = col (moveTo m) \<longrightarrow> hasMoved q"
  have 1: "?P r c q" if "cellAt (afterDestination b m) r c = Some q" for r c q
    using that by (auto simp: cellAt_afterDestination[OF wf vm] hasMoved_writtenPiece)
  have 2: "?P r c q" if "cellAt (afterCastling (afterDestination b m) m) r c = Some q" for r c q
    using afterCastling_preserves[OF wellFormedBoard_afterDestination[OF wf] vm _ _ that, of ?P] 1
    by blast
  have "?P (row (moveTo m)) (col (moveTo m)) q"
    using afterEnPassant_preserves[OF
        wellFormedBoard_afterCastling[OF wellFormedBoard_afterDestination[OF wf]] vm _
        rd[unfolded applyMove_steps], of ?P] 2 by blast
  then show ?thesis by simp
qed

lemma applyMove_castling_rook:
  assumes wf: "wellFormedBoard b" and vm: "validMove m"
    and ty: "moveType m = CASTLE_KINGSIDE \<or> moveType m = CASTLE_QUEENSIDE"
    and rf: "castlingRookFrom m = Some rf" and rt: "castlingRookTo m = Some rt"
    and rook: "cellAt b (row rf) (col rf) = Some rook"
    and nfrom: "\<not> (row rf = row (moveFrom m) \<and> col rf = col (moveFrom m))"
    and nto: "\<not> (row rf = row (moveTo m) \<and> col rf = col (moveTo m))"
  shows "cellAt (applyMove b m) (row rt) (col rt) = Some (rook\<lparr>hasMoved := True\<rparr>)"
proof -
  have v: "0 \<le> row rf" "row rf < 8" "0 \<le> col rf" "col rf < 8"
          "0 \<le> row rt" "row rt < 8" "0 \<le> col rt" "col rt < 8"
    using vm rf rt by (simp_all add: validMove_def isValidPosition_iff)
  have 1: "cellAt (afterDestination b m) (row rf) (col rf) = Some rook"
    using nfrom nto rook by (auto simp: cellAt_afterDestination[OF wf vm])
  have 2: "cellAt (afterCastling (afterDestination b m) m) (row rt) (col rt)
             = Some (rook\<lparr>hasMoved := True\<rparr>)"
    using ty rf rt 1 v wellFormedBoard_afterDestination[OF wf, of m]
    by (simp add: afterCastling_def cellAt_setCell wellFormedBoard_setCell)
  from ty have "afterEnPassant (afterCastling (afterDestination b m) m) m
      = afterCastling (afterDestination b m) m"
    by (auto simp: afterEnPassant_def)
  with 2 show ?thesis by (simp add: applyMove_steps)
qed

text \<open>
  Claim C8. After \<open>applyMove\<close>, for any move whose squares lie on the grid:
  whatever piece stands on the destination has \<open>hasMoved\<close> true, and the destination is
  occupied unless the move's own castling or en-passant square coincides with it;
  on a castling move the rook found on \<open>castlingRookFrom\<close> stands on \<open>castlingRookTo\<close> with
  \<open>hasMoved\<close> true; and every piece on the resulting board either stands unchanged where
  it stood before or has \<open>hasMoved\<close> true, so no flag goes back from true to false.
\<close>

theorem applyMove_hasMoved:
  assumes wf: "wellFormedBoard board" and vm: "validMove m"
  shows "(\<forall>q. cellAt (applyMove board m) (row (moveTo m)) (col (moveTo m)) = Some q \<longrightarrow> hasMoved q)
    \<and> ((\<forall>rf. castlingRookFrom m = Some rf
              \<longrightarrow> \<not> (row (moveTo m) = row rf \<and> col (moveTo m) = col rf))
       \<and> (\<forall>ep. enPassantCapturePos m = Some ep
              \<longrightarrow> \<not> (row (moveTo m) = row ep \<and> col (moveTo m) = col ep))
       \<longrightarrow> (\<exists>q. cellAt (applyMove board m) (row (moveTo m)) (col (moveTo m)) = Some q \<and> hasMoved q))
    \<and> (\<forall>rf rt rook.
          (moveType m = CASTLE_KINGSIDE \<or> moveType m = CASTLE_QUEENSIDE)
          \<and> castlingRookFrom m = Some rf \<and> castlingRookTo m = Some rt
          \<and> cellAt board (row rf) (col rf) = Some rook
          \<and> \<not> (row rf = row (moveFrom m) \<and> col rf = col (moveFrom m))
          \<and> \<not> (row rf = row (moveTo m) \<and> col rf = col (moveTo m))
          \<longrightarrow> cellAt (applyMove board m) (row rt) (col rt) = Some (rook\<lparr>hasMoved := True\<rparr>))
    \<and> (\<forall>r c q. cellAt (applyMove board m) r c = Some q
          \<longrightarrow> hasMoved q \<or> cellAt board r c = Some q)"
proof (intro conjI allI impI)
  fix q assume "cellAt (applyMove board m) (row (moveTo m)) (col (moveTo m)) = Some q"
  then show "hasMoved q" by (rule applyMove_destination_hasMoved[OF wf vm])
next
  assume a: "(\<forall>rf. castlingRookFrom m = Some rf
              \<longrightarrow> \<not> (row (moveTo m) = row rf \<and> col (moveTo m) = col rf))
       \<and> (\<forall>ep. enPassantCapturePos m = Some ep
              \<longrightarrow> \<not> (row (moveTo m) = row ep \<and> col (moveTo m) = col ep))"
  then obtain q where q: "cellAt (applyMove board m) (row (moveTo m)) (col (moveTo m)) = Some q"
    using applyMove_destination_occupied[OF wf vm] by blast
  with applyMove_destination_hasMoved[OF wf vm q]
  show "\<exists>q. cellAt (applyMove board m) (row (moveTo m)) (col (moveTo m)) = Some q \<and> hasMoved q"
    by blast
next
  fix rf rt rook
  assume "(moveType m = CASTLE_KINGSIDE \<or> moveType m = CASTLE_QUEENSIDE)
          \<and> castlingRookFrom m = Some rf \<and> castlingRookTo m = Some rt
          \<and> cellAt board (row rf) (col rf) = Some rook
          \<and> \<not> (row rf = row (moveFrom m) \<and> col rf = col (moveFrom m))
          \<and> \<not> (row rf = row (moveTo m) \<and> col rf = col (moveTo m))"
  then show "cellAt (applyMove board m) (row rt) (col rt) = Some (rook\<lparr>hasMoved := True\<rparr>)"
    using applyMove_castling_rook[OF wf vm] by blast
next
  fix r c q assume rd: "cellAt (applyMove board m) r c = Some q"
  show "hasMoved q \<or> cellAt board r c = Some q"
    using applyMove_preserves[OF wf vm _ _ rd, of "\<lambda>r c q. hasMoved q \<or> cellAt board r c = Some q"]
    by blast
qed

theorem applyMove_hasMoved_witness:
  "wellFormedBoard castlingBoard \<and> validMove castleKingside
   \<and> castleKingside
       \<in> set (getPossibleMoves castlingBoard \<lparr>row = 7, col = 4\<rparr> None defaultCastlingRights)
   \<and> cellAt castlingBoard 7 7 = Some \<lparr>type = ROOK, color = WHITE, hasMoved = False\<rparr>
   \<and> (\<exists>q. cellAt (applyMove castlingBoard castleKingside) 7 6 = Some q \<and> hasMoved q)
   \<and> cellAt (applyMove castlingBoard castleKingside) 7 5
       = Some \<lparr>type = ROOK, color = WHITE, hasMoved = True\<rparr>"
proof -
  have wf: "wellFormedBoard castlingBoard" by code_simp
  have vm: "validMove castleKingside" by code_simp
  have gen: "castleKingside
       \<in> set (getPossibleMoves castlingBoard \<lparr>row = 7, col = 4\<rparr> None defaultCastlingRights)"
    by code_simp
  have rk: "cellAt castlingBoard 7 7 = Some \<lparr>type = ROOK, color = WHITE, hasMoved = False\<rparr>"
    by code_simp
  from applyMove_hasMoved[OF wf vm] rk wf vm gen show ?thesis
    by (simp add: castleKingside_def)
qed

section \<open>Pawn promotion\<close>

lemma moveTo_pawnCaptureMoves:
  "m \<in> set (pawnCaptureMoves board position piece ep cm) \<Longrightarrow> moveTo m = cm"
  by (auto simp: pawnCaptureMoves_def Let_def basicMove_def addPawnPromotionMoves_def
      split: option.splits if_splits)

lemma col_moveTo_pawnForwardMoves:
  "m \<in> set (pawnForwardMoves board position piece) \<Longrightarrow> col (moveTo m) = col position"
  by (auto simp: pawnForwardMoves_def Let_def basicMove_def addPawnPromotionMoves_def
      split: option.splits if_splits)

lemma filter_none: "(\<And>x. x \<in> set xs \<Longrightarrow> \<not> P x) \<Longrightarrow> filter P xs = []"
  by (induction xs) auto

lemma pawnForwardMoves_promotion:
  assumes "isValidPosition dest"
    and "row dest = (if color piece = WHITE then 0 else 7)"
    and "row dest = row position + (if color piece = WHITE then -1 else 1)"
    and "col dest = col position" "cellAt board (row dest) (col dest) = None"
  shows "pawnForwardMoves board position piece = addPawnPromotionMoves position dest piece None"
proof -
  have d: "\<lparr>row = row position + (if color piece = WHITE then -1 else 1), col = col position\<rparr> = dest"
    using assms(3,4) by (cases dest) simp
  show ?thesis
    unfolding pawnForwardMoves_def Let_def d
    using assms by (cases "color piece") (auto simp: isValidPosition_iff)
qed

lemma pawnCaptureMoves_promotion:
  assumes "isValidPosition dest"
    and "row dest = (if color piece = WHITE then 0 else 7)"
    and "cellAt board (row dest) (col dest) = Some target" "color target \<noteq> color piece"
    and "\<And>t. ep = Some t \<Longrightarrow> \<not> (row dest = row t \<and> col dest = col t)"
  shows "pawnCaptureMoves board position piece ep dest
           = addPawnPromotionMoves position dest piece (Some target)"
  using assms
  by (cases "color piece") (auto simp: pawnCaptureMoves_def split: option.splits)

text \<open>
  Claim C7, as amended. For a pawn whose step forward onto an empty square, or whose
  diagonal capture of an enemy piece, ends on the farthest rank (row 0 for White, row 7
  for Black), and for an en-passant target that is absent or is another square than that
  destination, the moves \<open>getPossibleMoves\<close> generates to that destination are exactly
  four, in the order queen, rook, bishop, knight, each carrying that promotion piece type
  (type promotion for the step, capture-and-promotion for the capture).
\<close>

theorem pawn_promotion_moves:
  assumes wf: "wellFormedBoard board"
    and pos: "isValidPosition position"
    and pawn: "cellAt board (row position) (col position) = Some piece" "type piece = PAWN"
    and far: "row dest = (if color piece = WHITE then 0 else 7)"
    and step: "row dest = row position + (if color piece = WHITE then -1 else 1)"
    and dest: "isValidPosition dest"
    and reach: "(col dest = col position \<and> cellAt board (row dest) (col dest) = None)
              \<or> ((col dest = col position - 1 \<or> col dest = col position + 1)
                  \<and> (\<exists>target. cellAt board (row dest) (col dest) = Some target
                               \<and> color target \<noteq> color piece))"
    and ep: "enPassantTarget \<noteq> Some dest"
  shows "filter (\<lambda>move. moveTo move = dest)
           (getPossibleMoves board position enPassantTarget castlingRights)
         = map (\<lambda>promotion.
                  \<lparr>moveFrom = position, moveTo = dest,
                   moveType = (if col dest = col position then PROMOTION else CAPTURE_AND_PROMOTION),
                   movePiece = piece,
                   capturedPiece = cellAt board (row dest) (col dest),
                   promotionPieceType = Some promotion, castlingRookFrom = None,
                   castlingRookTo = None, enPassantCapturePos = None\<rparr>)
               [QUEEN, ROOK, BISHOP, KNIGHT]"
proof -
  let ?dir = "if color piece = WHITE then -1 else (1::int)"
  let ?L = "\<lparr>row = row position + ?dir, col = col position - 1\<rparr>"
  let ?R = "\<lparr>row = row position + ?dir, col = col position + 1\<rparr>"
  let ?F = "\<lambda>move. moveTo move = dest"
  have epd: "\<not> (row dest = row t \<and> col dest = col t)" if "enPassantTarget = Some t" for t
    using ep that by (cases t; cases dest) auto
  have gen: "getPossibleMoves board position enPassantTarget castlingRights
      = pawnForwardMoves board position piece
        @ pawnCaptureMoves board position piece enPassantTarget ?L
        @ pawnCaptureMoves board position piece enPassantTarget ?R"
    using pawn by (simp add: getPossibleMoves_def getPawnMoves_def Let_def)
  have other: "filter ?F (pawnCaptureMoves board position piece enPassantTarget cm) = []"
    if "cm \<noteq> dest" for cm
    using that by (intro filter_none) (auto dest: moveTo_pawnCaptureMoves)
  have all_promo: "filter ?F (addPawnPromotionMoves position dest piece cap)
      = addPawnPromotionMoves position dest piece cap" for cap
    by (simp add: addPawnPromotionMoves_def)
  from reach show ?thesis
  proof (elim disjE conjE exE)
    assume c: "col dest = col position" and e: "cellAt board (row dest) (col dest) = None"
    have f: "pawnForwardMoves board position piece = addPawnPromotionMoves position dest piece None"
      using pawnForwardMoves_promotion[OF dest far step c e] .
    have "?L \<noteq> dest" "?R \<noteq> dest" using c by (cases dest; auto)+
    then show ?thesis
      unfolding gen filter_append f all_promo
      using e by (simp add: other addPawnPromotionMoves_def c)
  next
    fix target
    assume cl: "col dest = col position - 1"
      and t: "cellAt board (row dest) (col dest) = Some target" "color target \<noteq> color piece"
    have f: "filter ?F (pawnForwardMoves board position piece) = []"
      using cl by (intro filter_none) (auto dest!: col_moveTo_pawnForwardMoves)
    have p: "pawnCaptureMoves board position piece enPassantTarget dest
               = addPawnPromotionMoves position dest piece (Some target)"
      using pawnCaptureMoves_promotion[OF dest far t epd] .
    have "?L = dest" "?R \<noteq> dest" using step cl by (cases dest; auto)+
    then show ?thesis
      unfolding gen filter_append f
      using t by (simp add: other p all_promo addPawnPromotionMoves_def cl)
  next
    fix target
    assume cr: "col dest = col position + 1"
      and t: "cellAt board (row dest) (col dest) = Some target" "color target \<noteq> color piece"
    have f: "filter ?F (pawnForwardMoves board position piece) = []"
      using cr by (intro filter_none) (auto dest!: col_moveTo_pawnForwardMoves)
    have p: "pawnCaptureMoves board position piece enPassantTarget dest
               = addPawnPromotionMoves position dest piece (Some target)"
      using pawnCaptureMoves_promotion[OF dest far t epd] .
    have "?R = dest" "?L \<noteq> dest" using step cr by (cases dest; auto)+
    then show ?thesis
      unfolding gen filter_append f
      using t by (simp add: other p all_promo addPawnPromotionMoves_def cr)
  qed
qed

theorem pawn_promotion_moves_witness:
  "wellFormedBoard promotionBoard
   \<and> cellAt promotionBoard 1 3 = Some \<lparr>type = PAWN, color = WHITE, hasMoved = True\<rparr>
   \<and> cellAt promotionBoard 0 3 = None
   \<and> cellAt promotionBoard 0 4 = Some \<lparr>type = KNIGHT, color = BLACK, hasMoved = True\<rparr>
   \<and> map (\<lambda>move. (moveType move, promotionPieceType move))
         (filter (\<lambda>move. moveTo move = \<lparr>row = 0, col = 3\<rparr>)
            (getPossibleMoves promotionBoard \<lparr>row = 1, col = 3\<rparr> None defaultCastlingRights))
       = [(PROMOTION, Some QUEEN), (PROMOTION, Some ROOK), (PROMOTION, Some BISHOP),
          (PROMOTION, Some KNIGHT)]
   \<and> map (\<lambda>move. (moveType move, promotionPieceType move))
         (filter (\<lambda>move. moveTo move = \<lparr>row = 0, col = 4\<rparr>)
            (getPossibleMoves promotionBoard \<lparr>row = 1, col = 3\<rparr> None defaultCastlingRights))
       = [(CAPTURE_AND_PROMOTION, Some QUEEN), (CAPTURE_AND_PROMOTION, Some ROOK),
          (CAPTURE_AND_PROMOTION, Some BISHOP), (CAPTURE_AND_PROMOTION, Some KNIGHT)]"
proof -
  let ?pawn = "\<lparr>type = PAWN, color = WHITE, hasMoved = True\<rparr>"
  let ?knight = "\<lparr>type = KNIGHT, color = BLACK, hasMoved = True\<rparr>"
  have wf: "wellFormedBoard promotionBoard" by code_simp
  have pos: "isValidPosition \<lparr>row = 1, col = 3\<rparr>" by code_simp
  have pawn: "cellAt promotionBoard (row \<lparr>row = 1, col = 3\<rparr>) (col \<lparr>row = 1, col = 3\<rparr>) = Some ?pawn"
    by code_simp
  have fwd: "cellAt promotionBoard 0 3 = None" by code_simp
  have cap: "cellAt promotionBoard 0 4 = Some ?knight" by code_simp
  have d1: "isValidPosition \<lparr>row = 0, col = 3\<rparr>" and d2: "isValidPosition \<lparr>row = 0, col = 4\<rparr>"
    by code_simp+
  have 1: "filter (\<lambda>move. moveTo move = \<lparr>row = 0, col = 3\<rparr>)
            (getPossibleMoves promotionBoard \<lparr>row = 1, col = 3\<rparr> None defaultCastlingRights)
        = map (\<lambda>promotion.
                  \<lparr>moveFrom = \<lparr>row = 1, col = 3\<rparr>, moveTo = \<lparr>row = 0, col = 3\<rparr>,
                   moveType = PROMOTION, movePiece = ?pawn, capturedPiece = None,
                   promotionPieceType = Some promotion, castlingRookFrom = None,
                   castlingRookTo = None, enPassantCapturePos = None\<rparr>)
               [QUEEN, ROOK, BISHOP, KNIGHT]"
    using pawn_promotion_moves[OF wf pos pawn _ _ _ d1, of None defaultCastlingRights] fwd
    by simp
  have 2: "filter (\<lambda>move. moveTo move = \<lparr>row = 0, col = 4\<rparr>)
            (getPossibleMoves promotionBoard \<lparr>row = 1, col = 3\<rparr> None defaultCastlingRights)
        = map (\<lambda>promotion.
                  \<lparr>moveFrom = \<lparr>row = 1, col = 3\<rparr>, moveTo = \<lparr>row = 0, col = 4\<rparr>,
                   moveType = CAPTURE_AND_PROMOTION, movePiece = ?pawn, capturedPiece = Some ?knight,
                   promotionPieceType = Some promotion, castlingRookFrom = None,
                   castlingRookTo = None, enPassantCapturePos = None\<rparr>)
               [QUEEN, ROOK, BISHOP, KNIGHT]"
    using pawn_promotion_moves[OF wf pos pawn _ _ _ d2, of None defaultCastlingRights] cap
    by simp
  from pawn have pawn': "cellAt promotionBoard 1 3 = Some ?pawn" by simp
  show ?thesis unfolding 1 2 using wf pawn' fwd cap by simp
qed

text \<open>
  Claim C7 as stated fails when the en-passant target passed to \<open>getPossibleMoves\<close> is
  the destination itself: on \<open>promotionBesidePawn\<close>, with the target on e8 and a black
  pawn beside the white pawn, five moves go to e8, the four capturing promotions and an
  en-passant move that carries no promotion piece type.
\<close>

theorem pawn_promotion_en_passant_fifth_move:
  "wellFormedBoard promotionBesidePawn
   \<and> cellAt promotionBesidePawn 1 3 = Some \<lparr>type = PAWN, color = WHITE, hasMoved = True\<rparr>
   \<and> cellAt promotionBesidePawn 0 4 = Some \<lparr>type = KNIGHT, color = BLACK, hasMoved = True\<rparr>
   \<and> map (\<lambda>move. (moveType move, promotionPieceType move))
        (filter (\<lambda>move. moveTo move = \<lparr>row = 0, col = 4\<rparr>)
           (getPossibleMoves promotionBesidePawn \<lparr>row = 1, col = 3\<rparr>
              (Some \<lparr>row = 0, col = 4\<rparr>) defaultCastlingRights))
       = [(CAPTURE_AND_PROMOTION, Some QUEEN), (CAPTURE_AND_PROMOTION, Some ROOK),
          (CAPTURE_AND_PROMOTION, Some BISHOP), (CAPTURE_AND_PROMOTION, Some KNIGHT),
          (EN_PASSANT, None)]"
  by code_simp

section \<open>Static evaluation\<close>

text \<open>
  Claim C3, as amended. The terminal cases of \<open>evaluateBoard\<close> are tested in order: if
  White is checkmated the result is exactly 10000; otherwise, if Black is checkmated, it
  is exactly -10000; otherwise, if either side is stalemated, it is exactly 0. In each of
  the three cases the result is that constant, with no material, positional, king-safety
  or mobility term in it, and the king-safety and mobility terms are not computed: the
  only term functions called are \<open>evaluateMaterial\<close> and \<open>evaluatePositions\<close>. On a
  board that is none of the three, all four are called and the result is their sum.
\<close>

theorem evaluateBoard_terminal:
  assumes "wellFormedBoard board"
  shows "(isCheckmate board WHITE
          \<longrightarrow> evaluateBoard board = 10000
            \<and> evaluateBoardCalls board = (10000, [CallEvaluateMaterial, CallEvaluatePositions]))
       \<and> (\<not> isCheckmate board WHITE \<and> isCheckmate board BLACK
          \<longrightarrow> evaluateBoard board = -10000
            \<and> evaluateBoardCalls board = (-10000, [CallEvaluateMaterial, CallEvaluatePositions]))
       \<and> (\<not> isCheckmate board WHITE \<and> \<not> isCheckmate board BLACK
            \<and> (isStalemate board WHITE \<or> isStalemate board BLACK)
          \<longrightarrow> evaluateBoard board = 0
            \<and> evaluateBoardCalls board = (0, [CallEvaluateMaterial, CallEvaluatePositions]))
       \<and> (\<not> isCheckmate board WHITE \<and> \<not> isCheckmate board BLACK
            \<and> \<not> isStalemate board WHITE \<and> \<not> isStalemate board BLACK
          \<longrightarrow> evaluateBoardCalls board
              = (evaluateMaterial board + evaluatePositions board
                   + evaluateKingSafety board + evaluateMobility board,
                 [CallEvaluateMaterial, CallEvaluatePositions,
                  CallEvaluateKingSafety, CallEvaluateMobility]))"
  by (simp add: evaluateBoard_def evaluateBoardCalls_def Let_def)

theorem evaluateBoard_terminal_witness:
  "wellFormedBoard backRankMate \<and> isCheckmate backRankMate WHITE
   \<and> evaluateBoard backRankMate = 10000
   \<and> evaluateBoardCalls backRankMate = (10000, [CallEvaluateMaterial, CallEvaluatePositions])
   \<and> wellFormedBoard blackMated \<and> \<not> isCheckmate blackMated WHITE \<and> isCheckmate blackMated BLACK
   \<and> evaluateBoard blackMated = -10000
   \<and> evaluateBoardCalls blackMated = (-10000, [CallEvaluateMaterial, CallEvaluatePositions])
   \<and> wellFormedBoard blackStalemated \<and> \<not> isCheckmate blackStalemated WHITE
   \<and> \<not> isCheckmate blackStalemated BLACK \<and> isStalemate blackStalemated BLACK
   \<and> evaluateBoard blackStalemated = 0
   \<and> evaluateBoardCalls blackStalemated = (0, [CallEvaluateMaterial, CallEvaluatePositions])
   \<and> wellFormedBoard twoKings \<and> \<not> isCheckmate twoKings WHITE \<and> \<not> isCheckmate twoKings BLACK
   \<and> \<not> isStalemate twoKings WHITE \<and> \<not> isStalemate twoKings BLACK
   \<and> snd (evaluateBoardCalls twoKings)
       = [CallEvaluateMaterial, CallEvaluatePositions, CallEvaluateKingSafety,
          CallEvaluateMobility]"
proof -
  have 1: "wellFormedBoard backRankMate" "isCheckmate backRankMate WHITE" by code_simp+
  have 2: "wellFormedBoard blackMated" "\<not> isCheckmate blackMated WHITE"
    "isCheckmate blackMated BLACK" by code_simp+
  have 3: "wellFormedBoard blackStalemated" "\<not> isCheckmate blackStalemated WHITE"
    "\<not> isCheckmate blackStalemated BLACK" "isStalemate blackStalemated BLACK" by code_simp+
  have 4: "wellFormedBoard twoKings" "\<not> isCheckmate twoKings WHITE"
    "\<not> isCheckmate twoKings BLACK" "\<not> isStalemate twoKings WHITE"
    "\<not> isStalemate twoKings BLACK" by code_simp+
  from evaluateBoard_terminal[OF 1(1)] evaluateBoard_terminal[OF 2(1)]
    evaluateBoard_terminal[OF 3(1)] evaluateBoard_terminal[OF 4(1)] 1 2 3 4
  show ?thesis by simp
qed

text \<open>
  Claim C3 as stated fails where two of its cases hold at once. On the board \<open>bothMated\<close>
  Black is checkmated, and so is White, and the result is 10000, not -10000. On the board
  \<open>matedAndStalemated\<close> White is stalemated, Black is checkmated, and the result is
  -10000, not 0.
\<close>

theorem evaluateBoard_checkmate_precedence:
  "wellFormedBoard bothMated \<and> isCheckmate bothMated BLACK \<and> evaluateBoard bothMated = 10000
   \<and> wellFormedBoard matedAndStalemated \<and> isStalemate matedAndStalemated WHITE
   \<and> evaluateBoard matedAndStalemated = -10000"
  by code_simp

lemma positionValue_standard_table:
  "positionValue board pos piece
     = tableAt (PIECE_SQUARE_TABLES (type piece))
         (if color piece = BLACK then row pos else 7 - row pos)
         (if color piece = BLACK then col pos else 7 - col pos)"
  by (simp add: positionValue_def Let_def)

text \<open>
  Claim C4 does not hold of the code. On the board \<open>twoKings\<close> the endgame predicate is
  true, yet \<open>evaluatePositions\<close> scores both kings from the standard king table (the
  black king at its own square, the white king at the mirrored square): the value read
  from the endgame table is overwritten before it is used. With the endgame table the
  term would be 70 (squares as they are) or 80 (white square mirrored), not -10.
\<close>

theorem evaluatePositions_ignores_endgame_table:
  "wellFormedBoard twoKings \<and> isEndgamePhase twoKings
   \<and> evaluatePositions twoKings
       = tableAt (PIECE_SQUARE_TABLES KING) 3 3 - tableAt (PIECE_SQUARE_TABLES KING) 0 1
   \<and> evaluatePositions twoKings = -10
   \<and> tableAt kingEndgame 3 3 - tableAt kingEndgame 7 6 = 70
   \<and> tableAt kingEndgame 3 3 - tableAt kingEndgame 0 1 = 80"
  by code_simp

section \<open>Search\<close>

lemma jsMax_finite: "best \<noteq> PosInfinity \<Longrightarrow> \<exists>n. jsMax best (Finite k) = Finite n"
  by (cases best) (auto simp: jsMax_def)

lemma jsMin_finite: "best \<noteq> NegInfinity \<Longrightarrow> \<exists>n. jsMin best (Finite k) = Finite n"
  by (cases best) (auto simp: jsMin_def)

lemma search_results_finite:
  "(\<forall>v. minimax fuel board depth alpha beta isMax ep cr = Some v \<longrightarrow> (\<exists>n. v = Finite n))"
  "(\<forall>v. maximize fuel board depth alpha beta best moves ep cr = Some v \<longrightarrow> best \<noteq> PosInfinity
       \<longrightarrow> (moves = [] \<and> v = best) \<or> (\<exists>n. v = Finite n))"
  "(\<forall>v. minimize fuel board depth alpha beta best moves ep cr = Some v \<longrightarrow> best \<noteq> NegInfinity
       \<longrightarrow> (moves = [] \<and> v = best) \<or> (\<exists>n. v = Finite n))"
proof (induction fuel board depth alpha beta isMax ep cr
         and fuel board depth alpha beta best moves ep cr
         and fuel board depth alpha beta best moves ep cr
       rule: minimax_maximize_minimize.induct)
  case (1 fuel board depth alpha beta isMaximizingPlayer enPassantTarget castlingRights)
  show ?case
  proof (intro allI impI)
    fix v
    assume r: "minimax fuel board depth alpha beta isMaximizingPlayer enPassantTarget castlingRights = Some v"
    show "\<exists>n. v = Finite n"
    proof (cases "depth = 0 \<or> isCheckmate board WHITE \<or> isCheckmate board BLACK
         \<or> isStalemate board WHITE \<or> isStalemate board BLACK
         \<or> collectLegalMoves board (if isMaximizingPlayer then BLACK else WHITE)
              enPassantTarget castlingRights = []")
      case True
      with r show ?thesis by (auto simp: minimax.simps Let_def split: if_splits)
    next
      case False
      with r obtain f where f: "fuel = Suc f"
        by (cases fuel) (auto simp: minimax.simps Let_def split: if_splits)
      show ?thesis
      proof (cases isMaximizingPlayer)
        case True
        with r False f have
          "maximize f board depth alpha beta NegInfinity
             (collectLegalMoves board BLACK enPassantTarget castlingRights)
             enPassantTarget castlingRights = Some v"
          by (simp add: minimax.simps Let_def)
        with "1.IH"(1)[OF _ refl refl _ f True] False True show ?thesis by auto
      next
        case F: False
        with r False f have
          "minimize f board depth alpha beta PosInfinity
             (collectLegalMoves board WHITE enPassantTarget castlingRights)
             enPassantTarget castlingRights = Some v"
          by (simp add: minimax.simps Let_def)
        with "1.IH"(2)[OF _ refl refl _ f F] False F show ?thesis by auto
      qed
    qed
  qed
next
  case (2 fuel board depth alpha beta maxEval enPassantTarget castlingRights)
  show ?case by simp
next
  case (3 fuel board depth alpha beta maxEval move rest enPassantTarget castlingRights)
  show ?case
  proof (intro allI impI)
    fix v
    assume r: "maximize fuel board depth alpha beta maxEval (move # rest) enPassantTarget castlingRights = Some v"
      and b: "maxEval \<noteq> PosInfinity"
    from r obtain e where e: "minimax fuel (applyMove (deepClone board) move) (depth - 1) alpha beta
        False enPassantTarget castlingRights = Some e"
      by (auto simp: Let_def split: option.splits)
    with "3.IH"(1)[OF refl] obtain k where k: "e = Finite k" by blast
    from jsMax_finite[OF b, of k] obtain n where n: "jsMax maxEval (Finite k) = Finite n" by blast
    show "(move # rest = [] \<and> v = maxEval) \<or> (\<exists>n. v = Finite n)"
    proof (cases "jsLe beta (jsMax alpha e)")
      case True
      with r e k n show ?thesis by (auto simp: Let_def)
    next
      case False
      with r e have "maximize fuel board depth (jsMax alpha e) beta (jsMax maxEval e) rest
          enPassantTarget castlingRights = Some v"
        by (simp add: Let_def)
      with "3.IH"(2)[OF refl e refl refl False] k n show ?thesis by auto
    qed
  qed
next
  case (4 fuel board depth alpha beta minEval enPassantTarget castlingRights)
  show ?case by simp
next
  case (5 fuel board depth alpha beta minEval move rest enPassantTarget castlingRights)
  show ?case
  proof (intro allI impI)
    fix v
    assume r: "minimize fuel board depth alpha beta minEval (move # rest) enPassantTarget castlingRights = Some v"
      and b: "minEval \<noteq> NegInfinity"
    from r obtain e where e: "minimax fuel (applyMove (deepClone board) move) (depth - 1) alpha beta
        True enPassantTarget castlingRights = Some e"
      by (auto simp: Let_def split: option.splits)
    with "5.IH"(1)[OF refl] obtain k where k: "e = Finite k" by blast
    from jsMin_finite[OF b, of k] obtain n where n: "jsMin minEval (Finite k) = Finite n" by blast
    show "(move # rest = [] \<and> v = minEval) \<or> (\<exists>n. v = Finite n)"
    proof (cases "jsLe (jsMin beta e) alpha")
      case True
      with r e k n show ?thesis by (auto simp: Let_def)
    next
      case False
      with r e have "minimize fuel board depth alpha (jsMin beta e) (jsMin minEval e) rest
          enPassantTarget castlingRights = Some v"
        by (simp add: Let_def)
      with "5.IH"(2)[OF refl e refl refl False] k n show ?thesis by auto
    qed
  qed
qed

lemma search_returns:
  "(0 \<le> depth \<longrightarrow> nat depth \<le> fuel
      \<longrightarrow> (\<exists>v. minimax fuel board depth alpha beta isMax ep cr = Some v))"
  "(1 \<le> depth \<longrightarrow> nat (depth - 1) \<le> fuel
      \<longrightarrow> (\<exists>v. maximize fuel board depth alpha beta best moves ep cr = Some v))"
  "(1 \<le> depth \<longrightarrow> nat (depth - 1) \<le> fuel
      \<longrightarrow> (\<exists>v. minimize fuel board depth alpha beta best moves ep cr = Some v))"
proof (induction fuel board depth alpha beta isMax ep cr
         and fuel board depth alpha beta best moves ep cr
         and fuel board depth alpha beta best moves ep cr
       rule: minimax_maximize_minimize.induct)
  case (1 fuel board depth alpha beta isMaximizingPlayer enPassantTarget castlingRights)
  show ?case
  proof (intro impI)
    assume d: "0 \<le> depth" and fl: "nat depth \<le> fuel"
    show "\<exists>v. minimax fuel board depth alpha beta isMaximizingPlayer enPassantTarget castlingRights = Some v"
    proof (cases "depth = 0 \<or> isCheckmate board WHITE \<or> isCheckmate board BLACK
         \<or> isStalemate board WHITE \<or> isStalemate board BLACK
         \<or> collectLegalMoves board (if isMaximizingPlayer then BLACK else WHITE)
              enPassantTarget castlingRights = []")
      case True
      then show ?thesis by (auto simp: minimax.simps Let_def)
    next
      case False
      with d fl obtain f where f: "fuel = Suc f" by (cases fuel) auto
      from False d fl f have d1: "1 \<le> depth" "nat (depth - 1) \<le> f" by auto
      show ?thesis
      proof (cases isMaximizingPlayer)
        case True
        with "1.IH"(1)[OF _ refl refl _ f True] False d1 f show ?thesis
          by (auto simp: minimax.simps Let_def)
      next
        case F: False
        with "1.IH"(2)[OF _ refl refl _ f F] False d1 f show ?thesis
          by (auto simp: minimax.simps Let_def)
      qed
    qed
  qed
next
  case (2 fuel board depth alpha beta maxEval enPassantTarget castlingRights)
  show ?case by simp
next
  case (3 fuel board depth alpha beta maxEval move rest enPassantTarget castlingRights)
  show ?case
  proof (intro impI)
    assume d: "1 \<le> depth" and fl: "nat (depth - 1) \<le> fuel"
    with "3.IH"(1)[OF refl] obtain e where e:
      "minimax fuel (applyMove (deepClone board) move) (depth - 1) alpha beta
        False enPassantTarget castlingRights = Some e" by auto
    show "\<exists>v. maximize fuel board depth alpha beta maxEval (move # rest) enPassantTarget castlingRights = Some v"
    proof (cases "jsLe beta (jsMax alpha e)")
      case True
      with e show ?thesis by (simp add: Let_def)
    next
      case False
      with "3.IH"(2)[OF refl e refl refl False] d fl e show ?thesis by (simp add: Let_def)
    qed
  qed
next
  case (4 fuel board depth alpha beta minEval enPassantTarget castlingRights)
  show ?case by simp
next
  case (5 fuel board depth alpha beta minEval move rest enPassantTarget castlingRights)
  show ?case
  proof (intro impI)
    assume d: "1 \<le> depth" and fl: "nat (depth - 1) \<le> fuel"
    with "5.IH"(1)[OF refl] obtain e where e:
      "minimax fuel (applyMove (deepClone board) move) (depth - 1) alpha beta
        True enPassantTarget castlingRights = Some e" by auto
    show "\<exists>v. minimize fuel board depth alpha beta minEval (move # rest) enPassantTarget castlingRights = Some v"
    proof (cases "jsLe (jsMin beta e) alpha")
      case True
      with e show ?thesis by (simp add: Let_def)
    next
      case False
      with "5.IH"(2)[OF refl e refl refl False] d fl e show ?thesis by (simp add: Let_def)
    qed
  qed
qed

lemma search_fuel_mono:
  "(\<forall>v. minimax fuel board depth alpha beta isMax ep cr = Some v
      \<longrightarrow> minimax (Suc fuel) board depth alpha beta isMax ep cr = Some v)"
  "(\<forall>v. maximize fuel board depth alpha beta best moves ep cr = Some v
      \<longrightarrow> maximize (Suc fuel) board depth alpha beta best moves ep cr = Some v)"
  "(\<forall>v. minimize fuel board depth alpha beta best moves ep cr = Some v
      \<longrightarrow> minimize (Suc fuel) board depth alpha beta best moves ep cr = Some v)"
proof (induction fuel board depth alpha beta isMax ep cr
         and fuel board depth alpha beta best moves ep cr
         and fuel board depth alpha beta best moves ep cr
       rule: minimax_maximize_minimize.induct)
  case (1 fuel board depth alpha beta isMaximizingPlayer enPassantTarget castlingRights)
  show ?case
  proof (intro allI impI)
    fix v
    assume r: "minimax fuel board depth alpha beta isMaximizingPlayer enPassantTarget castlingRights = Some v"
    show "minimax (Suc fuel) board depth alpha beta isMaximizingPlayer enPassantTarget castlingRights = Some v"
    proof (cases "depth = 0 \<or> isCheckmate board WHITE \<or> isCheckmate board BLACK
         \<or> isStalemate board WHITE \<or> isStalemate board BLACK
         \<or> collectLegalMoves board (if isMaximizingPlayer then BLACK else WHITE)
              enPassantTarget castlingRights = []")
      case True
      with r show ?thesis by (auto simp: minimax.simps Let_def split: if_splits)
    next
      case False
      with r obtain f where f: "fuel = Suc f"
        by (cases fuel) (auto simp: minimax.simps Let_def split: if_splits)
      show ?thesis
      proof (cases isMaximizingPlayer)
        case True
        with r False f have
          "maximize f board depth alpha beta NegInfinity
             (collectLegalMoves board BLACK enPassantTarget castlingRights)
             enPassantTarget castlingRights = Some v"
          by (simp add: minimax.simps Let_def)
        with "1.IH"(1)[OF _ refl refl _ f True] False True have
          "maximize (Suc f) board depth alpha beta NegInfinity
             (collectLegalMoves board BLACK enPassantTarget castlingRights)
             enPassantTarget castlingRights = Some v"
          by auto
        with False True f show ?thesis
          by (simp add: minimax.simps[of "Suc (Suc f)"] Let_def)
      next
        case F: False
        with r False f have
          "minimize f board depth alpha beta PosInfinity
             (collectLegalMoves board WHITE enPassantTarget castlingRights)
             enPassantTarget castlingRights = Some v"
          by (simp add: minimax.simps Let_def)
        with "1.IH"(2)[OF _ refl refl _ f F] False F have
          "minimize (Suc f) board depth alpha beta PosInfinity
             (collectLegalMoves board WHITE enPassantTarget castlingRights)
             enPassantTarget castlingRights = Some v"
          by auto
        with False F f show ?thesis
          by (simp add: minimax.simps[of "Suc (Suc f)"] Let_def)
      qed
    qed
  qed
next
  case (2 fuel board depth alpha beta maxEval enPassantTarget castlingRights)
  show ?case by simp
next
  case (3 fuel board depth alpha beta maxEval move rest enPassantTarget castlingRights)
  show ?case
  proof (intro allI impI)
    fix v
    assume r: "maximize fuel board depth alpha beta maxEval (move # rest) enPassantTarget castlingRights = Some v"
    from r obtain e where e: "minimax fuel (applyMove (deepClone board) move) (depth - 1) alpha beta
        False enPassantTarget castlingRights = Some e"
      by (auto simp: Let_def split: option.splits)
    with "3.IH"(1)[OF refl] have e': "minimax (Suc fuel) (applyMove (deepClone board) move)
        (depth - 1) alpha beta False enPassantTarget castlingRights = Some e" by blast
    show "maximize (Suc fuel) board depth alpha beta maxEval (move # rest) enPassantTarget castlingRights = Some v"
    proof (cases "jsLe beta (jsMax alpha e)")
      case True
      with r e e' show ?thesis by (simp add: Let_def)
    next
      case False
      with r e have "maximize fuel board depth (jsMax alpha e) beta (jsMax maxEval e) rest
          enPassantTarget castlingRights = Some v"
        by (simp add: Let_def)
      with "3.IH"(2)[OF refl e refl refl False] False e' show ?thesis by (simp add: Let_def)
    qed
  qed
next
  case (4 fuel board depth alpha beta minEval enPassantTarget castlingRights)
  show ?case by simp
next
  case (5 fuel board depth alpha beta minEval move rest enPassantTarget castlingRights)
  show ?case
  proof (intro allI impI)
    fix v
    assume r: "minimize fuel board depth alpha beta minEval (move # rest) enPassantTarget castlingRights = Some v"
    from r obtain e where e: "minimax fuel (applyMove (deepClone board) move) (depth - 1) alpha beta
        True enPassantTarget castlingRights = Some e"
      by (auto simp: Let_def split: option.splits)
    with "5.IH"(1)[OF refl] have e': "minimax (Suc fuel) (applyMove (deepClone board) move)
        (depth - 1) alpha beta True enPassantTarget castlingRights = Some e" by blast
    show "minimize (Suc fuel) board depth alpha beta minEval (move # rest) enPassantTarget castlingRights = Some v"
    proof (cases "jsLe (jsMin beta e) alpha")
      case True
      with r e e' show ?thesis by (simp add: Let_def)
    next
      case False
      with r e have "minimize fuel board depth alpha (jsMin beta e) (jsMin minEval e) rest
          enPassantTarget castlingRights = Some v"
        by (simp add: Let_def)
      with "5.IH"(2)[OF refl e refl refl False] False e' show ?thesis by (simp add: Let_def)
    qed
  qed
qed

lemma bestMoveLoop_returns:
  assumes "1 \<le> depth" "nat (depth - 1) \<le> fuel"
  shows "\<exists>r. bestMoveLoop fuel board depth isBlack ep cr bestMove bestScore moves = Some r"
proof (induction moves arbitrary: bestMove bestScore)
  case Nil
  show ?case by simp
next
  case (Cons move rest)
  from assms search_returns(1)[of "depth - 1" fuel "applyMove (deepClone board) move"
      NegInfinity PosInfinity "\<not> isBlack" ep cr]
  obtain s where s: "minimax fuel (applyMove (deepClone board) move) (depth - 1)
      NegInfinity PosInfinity (\<not> isBlack) ep cr = Some s" by auto
  show ?case using Cons.IH s by (cases isBlack; simp add: Let_def)
qed

lemma bestMoveLoop_member:
  assumes "bestMoveLoop fuel board depth isBlack ep cr bestMove bestScore moves = Some r"
    and "set moves \<subseteq> S"
    and "(bestMove = None \<and> moves \<noteq> [] \<and> bestScore = (if isBlack then NegInfinity else PosInfinity))
         \<or> (\<exists>m \<in> S. bestMove = Some m)"
  shows "\<exists>m \<in> S. r = Some m"
  using assms
proof (induction moves arbitrary: bestMove bestScore)
  case Nil
  then show ?case by auto
next
  case (Cons move rest)
  from Cons.prems(1) obtain s where s: "minimax fuel (applyMove (deepClone board) move) (depth - 1)
      NegInfinity PosInfinity (\<not> isBlack) ep cr = Some s"
    by (auto simp: Let_def split: option.splits)
  with search_results_finite(1) obtain k where k: "s = Finite k" by blast
  from Cons.prems(2) have mS: "move \<in> S" and rS: "set rest \<subseteq> S" by auto
  let ?better = "if isBlack then jsLess bestScore s else jsLess s bestScore"
  show ?case
  proof (cases ?better)
    case True
    with Cons.prems(1) s have
      "bestMoveLoop fuel board depth isBlack ep cr (Some move) s rest = Some r"
      by (auto simp: Let_def split: if_splits)
    from Cons.IH[OF this rS] mS show ?thesis by blast
  next
    case False
    with Cons.prems(1) s have l:
      "bestMoveLoop fuel board depth isBlack ep cr bestMove bestScore rest = Some r"
      by (auto simp: Let_def split: if_splits)
    from False k have "\<not> (bestMove = None \<and> bestScore = (if isBlack then NegInfinity else PosInfinity))"
      by (auto simp: jsLess_def split: if_splits)
    with Cons.prems(3) have "\<exists>m \<in> S. bestMove = Some m" by auto
    from Cons.IH[OF l rS] this show ?thesis by blast
  qed
qed

lemma bestMoveLoop_fuel_mono:
  assumes "bestMoveLoop fuel board depth isBlack ep cr bestMove bestScore moves = Some r"
  shows "bestMoveLoop (Suc fuel) board depth isBlack ep cr bestMove bestScore moves = Some r"
  using assms
proof (induction moves arbitrary: bestMove bestScore)
  case Nil
  then show ?case by simp
next
  case (Cons move rest)
  from Cons.prems obtain s where s: "minimax fuel (applyMove (deepClone board) move) (depth - 1)
      NegInfinity PosInfinity (\<not> isBlack) ep cr = Some s"
    by (auto simp: Let_def split: option.splits)
  with search_fuel_mono(1) have s': "minimax (Suc fuel) (applyMove (deepClone board) move)
      (depth - 1) NegInfinity PosInfinity (\<not> isBlack) ep cr = Some s" by blast
  show ?case
  proof (cases "if isBlack then jsLess bestScore s else jsLess s bestScore")
    case True
    with Cons.prems s have
      "bestMoveLoop fuel board depth isBlack ep cr (Some move) s rest = Some r"
      by (auto simp: Let_def split: if_splits)
    from Cons.IH[OF this] True s' show ?thesis by (auto simp: Let_def split: if_splits)
  next
    case False
    with Cons.prems s have
      "bestMoveLoop fuel board depth isBlack ep cr bestMove bestScore rest = Some r"
      by (auto simp: Let_def split: if_splits)
    from Cons.IH[OF this] False s' show ?thesis by (auto simp: Let_def split: if_splits)
  qed
qed

lemma findBestMove_fuel_mono:
  assumes "findBestMove fuel board depth isBlack ep cr = Some r"
  shows "findBestMove (Suc fuel) board depth isBlack ep cr = Some r"
  using assms bestMoveLoop_fuel_mono[of fuel board depth isBlack ep cr None
      "if isBlack then NegInfinity else PosInfinity"
      "collectLegalMoves board (if isBlack then BLACK else WHITE) ep cr" r]
  by (simp add: findBestMove_def Let_def split: if_splits)

lemma set_collectLegalMoves:
  "set (collectLegalMoves board playerColor ep cr)
     = (\<Union>pos \<in> {pos. isValidPosition pos
                      \<and> (\<exists>piece. cellAt board (row pos) (col pos) = Some piece
                                 \<and> color piece = playerColor)}.
          set (filterLegalMoves board (getPossibleMoves board pos ep cr) playerColor))"
  unfolding collectLegalMoves_def set_concat set_map set_boardPositions Let_def
  by (auto split: option.splits if_splits) (metis option.simps(1))

lemma mem_collectLegalMoves:
  "move \<in> set (collectLegalMoves board playerColor ep cr) \<longleftrightarrow>
     (\<exists>pos. isValidPosition pos
        \<and> (\<exists>piece. cellAt board (row pos) (col pos) = Some piece \<and> color piece = playerColor)
        \<and> move \<in> set (getPossibleMoves board pos ep cr)
        \<and> \<not> isKingInCheck (applyMove (deepClone board) move) playerColor)"
  unfolding set_collectLegalMoves by (auto simp: filterLegalMoves_def)

lemma jsMax_cases: "jsMax x y = x \<or> jsMax x y = y"
  by (simp add: jsMax_def)

lemma jsMin_cases: "jsMin x y = x \<or> jsMin x y = y"
  by (simp add: jsMin_def)

lemma maximize_value:
  assumes "maximize fuel board depth alpha beta best moves ep cr = Some v"
  shows "v = best
       \<or> (\<exists>move \<in> set moves. \<exists>a b.
             minimax fuel (applyMove (deepClone board) move) (depth - 1) a b False ep cr = Some v)"
  using assms
proof (induction moves arbitrary: alpha best)
  case Nil
  then show ?case by simp
next
  case (Cons move rest)
  from Cons.prems obtain e where e: "minimax fuel (applyMove (deepClone board) move) (depth - 1)
      alpha beta False ep cr = Some e"
    by (auto simp: Let_def split: option.splits)
  show ?case
  proof (cases "jsLe beta (jsMax alpha e)")
    case True
    with Cons.prems e have "v = jsMax best e" by (simp add: Let_def)
    with jsMax_cases[of best e] e show ?thesis by auto
  next
    case False
    with Cons.prems e have "maximize fuel board depth (jsMax alpha e) beta (jsMax best e) rest
        ep cr = Some v"
      by (simp add: Let_def)
    from Cons.IH[OF this] jsMax_cases[of best e] e show ?thesis by auto
  qed
qed

lemma minimize_value:
  assumes "minimize fuel board depth alpha beta best moves ep cr = Some v"
  shows "v = best
       \<or> (\<exists>move \<in> set moves. \<exists>a b.
             minimax fuel (applyMove (deepClone board) move) (depth - 1) a b True ep cr = Some v)"
  using assms
proof (induction moves arbitrary: beta best)
  case Nil
  then show ?case by simp
next
  case (Cons move rest)
  from Cons.prems obtain e where e: "minimax fuel (applyMove (deepClone board) move) (depth - 1)
      alpha beta True ep cr = Some e"
    by (auto simp: Let_def split: option.splits)
  show ?case
  proof (cases "jsLe (jsMin beta e) alpha")
    case True
    with Cons.prems e have "v = jsMin best e" by (simp add: Let_def)
    with jsMin_cases[of best e] e show ?thesis by auto
  next
    case False
    with Cons.prems e have "minimize fuel board depth alpha (jsMin beta e) (jsMin best e) rest
        ep cr = Some v"
      by (simp add: Let_def)
    from Cons.IH[OF this] jsMin_cases[of best e] e show ?thesis by auto
  qed
qed

lemma minimax_value_of_child:
  assumes nt: "\<not> (depth = 0 \<or> isCheckmate board WHITE \<or> isCheckmate board BLACK
               \<or> isStalemate board WHITE \<or> isStalemate board BLACK
               \<or> collectLegalMoves board (if isMax then BLACK else WHITE) ep cr = [])"
    and r: "minimax fuel board depth alpha beta isMax ep cr = Some v"
  shows "\<exists>fuel'. fuel = Suc fuel'
          \<and> (\<exists>move \<in> set (collectLegalMoves board (if isMax then BLACK else WHITE) ep cr).
               \<exists>a b. minimax fuel' (applyMove (deepClone board) move) (depth - 1) a b
                        (\<not> isMax) ep cr = Some v)"
proof -
  from nt r obtain f where f: "fuel = Suc f"
    by (cases fuel) (auto simp: minimax.simps Let_def)
  from search_results_finite(1) r obtain n where n: "v = Finite n" by blast
  show ?thesis
  proof (cases isMax)
    case True
    with nt r f have "maximize f board depth alpha beta NegInfinity
        (collectLegalMoves board BLACK ep cr) ep cr = Some v"
      by (simp add: minimax.simps Let_def)
    from maximize_value[OF this] n True f show ?thesis by auto
  next
    case False
    with nt r f have "minimize f board depth alpha beta PosInfinity
        (collectLegalMoves board WHITE ep cr) ep cr = Some v"
      by (simp add: minimax.simps Let_def)
    from minimize_value[OF this] n False f show ?thesis by auto
  qed
qed

text \<open>
  Claim C5. \<open>minimax\<close> returns \<open>evaluateBoard board\<close> without any recursive call (that is,
  with no fuel at all) when the depth is 0, or either colour is checkmated or stalemated,
  or the side to move has no legal move. In every other case it does not return without
  recursion, and it recurses over the legal moves of the side to move: it is the loop
  over those moves (\<open>maximize\<close> for Black, \<open>minimize\<close> for White); the loop calls
  \<open>minimax\<close> on the board after the first legal move, with \<open>depth - 1\<close>, the same
  bounds and the other player, and a call that does not return keeps \<open>minimax\<close> from
  returning; each further step of the loop applies the next move to a copy of the board
  and calls \<open>minimax\<close> in the same way, unless the bounds have met; and the value
  returned is the value such a call returned for one of the legal moves. With a depth of
  0 or more the search returns, \<open>depth\<close> nested calls being enough.
\<close>

theorem minimax_base_cases:
  assumes "wellFormedBoard board"
  shows "((depth = 0 \<or> isCheckmate board WHITE \<or> isCheckmate board BLACK
           \<or> isStalemate board WHITE \<or> isStalemate board BLACK
           \<or> collectLegalMoves board (if isMaximizingPlayer then BLACK else WHITE)
                enPassantTarget castlingRights = [])
          \<longrightarrow> (\<forall>fuel. minimax fuel board depth alpha beta isMaximizingPlayer enPassantTarget
                         castlingRights = Some (Finite (evaluateBoard board))))
       \<and> (\<not> (depth = 0 \<or> isCheckmate board WHITE \<or> isCheckmate board BLACK
               \<or> isStalemate board WHITE \<or> isStalemate board BLACK
               \<or> collectLegalMoves board (if isMaximizingPlayer then BLACK else WHITE)
                    enPassantTarget castlingRights = [])
          \<longrightarrow> minimax 0 board depth alpha beta isMaximizingPlayer enPassantTarget castlingRights
                = None
              \<and> (\<forall>fuel. minimax (Suc fuel) board depth alpha beta isMaximizingPlayer
                           enPassantTarget castlingRights
                         = (if isMaximizingPlayer
                            then maximize fuel board depth alpha beta NegInfinity
                                   (collectLegalMoves board BLACK enPassantTarget castlingRights)
                                   enPassantTarget castlingRights
                            else minimize fuel board depth alpha beta PosInfinity
                                   (collectLegalMoves board WHITE enPassantTarget castlingRights)
                                   enPassantTarget castlingRights))
              \<and> (\<forall>fuel move rest.
                    collectLegalMoves board (if isMaximizingPlayer then BLACK else WHITE)
                      enPassantTarget castlingRights = move # rest
                    \<and> minimax fuel (applyMove (deepClone board) move) (depth - 1) alpha beta
                        (\<not> isMaximizingPlayer) enPassantTarget castlingRights = None
                    \<longrightarrow> minimax (Suc fuel) board depth alpha beta isMaximizingPlayer
                          enPassantTarget castlingRights = None)
              \<and> (\<forall>fuel v.
                    minimax (Suc fuel) board depth alpha beta isMaximizingPlayer
                      enPassantTarget castlingRights = Some v
                    \<longrightarrow> (\<exists>move \<in> set (collectLegalMoves board
                                         (if isMaximizingPlayer then BLACK else WHITE)
                                         enPassantTarget castlingRights).
                          \<exists>a b. minimax fuel (applyMove (deepClone board) move) (depth - 1) a b
                                  (\<not> isMaximizingPlayer) enPassantTarget castlingRights
                                = Some v)))
       \<and> (\<forall>fuel a b best.
             maximize fuel board depth a b best [] enPassantTarget castlingRights = Some best
             \<and> minimize fuel board depth a b best [] enPassantTarget castlingRights = Some best)
       \<and> (\<forall>fuel a b best move rest.
             maximize fuel board depth a b best (move # rest) enPassantTarget castlingRights
             = (case minimax fuel (applyMove (deepClone board) move) (depth - 1) a b False
                      enPassantTarget castlingRights of
                  None \<Rightarrow> None
                | Some eval \<Rightarrow>
                    if jsLe b (jsMax a eval) then Some (jsMax best eval)
                    else maximize fuel board depth (jsMax a eval) b (jsMax best eval) rest
                           enPassantTarget castlingRights))
       \<and> (\<forall>fuel a b best move rest.
             minimize fuel board depth a b best (move # rest) enPassantTarget castlingRights
             = (case minimax fuel (applyMove (deepClone board) move) (depth - 1) a b True
                      enPassantTarget castlingRights of
                  None \<Rightarrow> None
                | Some eval \<Rightarrow>
                    if jsLe (jsMin b eval) a then Some (jsMin best eval)
                    else minimize fuel board depth a (jsMin b eval) (jsMin best eval) rest
                           enPassantTarget castlingRights))
       \<and> (0 \<le> depth
          \<longrightarrow> (\<exists>v. minimax (nat depth) board depth alpha beta isMaximizingPlayer enPassantTarget
                       castlingRights = Some v))
       \<and> (\<forall>move.
             move \<in> set (collectLegalMoves board (if isMaximizingPlayer then BLACK else WHITE)
                          enPassantTarget castlingRights)
             \<longleftrightarrow> (\<exists>pos. isValidPosition pos
                    \<and> (\<exists>piece. cellAt board (row pos) (col pos) = Some piece
                               \<and> color piece = (if isMaximizingPlayer then BLACK else WHITE))
                    \<and> move \<in> set (getPossibleMoves board pos enPassantTarget castlingRights)
                    \<and> \<not> isKingInCheck (applyMove (deepClone board) move)
                          (if isMaximizingPlayer then BLACK else WHITE)))"
proof -
  let ?T = "depth = 0 \<or> isCheckmate board WHITE \<or> isCheckmate board BLACK
           \<or> isStalemate board WHITE \<or> isStalemate board BLACK
           \<or> collectLegalMoves board (if isMaximizingPlayer then BLACK else WHITE)
                enPassantTarget castlingRights = []"
  have base: "minimax fuel board depth alpha beta isMaximizingPlayer enPassantTarget
      castlingRights = Some (Finite (evaluateBoard board))" if "?T" for fuel
    using that by (auto simp: minimax.simps Let_def)
  have zero: "minimax 0 board depth alpha beta isMaximizingPlayer enPassantTarget castlingRights
      = None" if "\<not> ?T"
    using that by (auto simp: minimax.simps Let_def)
  have loop: "minimax (Suc fuel) board depth alpha beta isMaximizingPlayer
                           enPassantTarget castlingRights
                         = (if isMaximizingPlayer
                            then maximize fuel board depth alpha beta NegInfinity
                                   (collectLegalMoves board BLACK enPassantTarget castlingRights)
                                   enPassantTarget castlingRights
                            else minimize fuel board depth alpha beta PosInfinity
                                   (collectLegalMoves board WHITE enPassantTarget castlingRights)
                                   enPassantTarget castlingRights)" if "\<not> ?T" for fuel
    using that by (auto simp: minimax.simps Let_def)
  have first: "minimax (Suc fuel) board depth alpha beta isMaximizingPlayer
                          enPassantTarget castlingRights = None"
    if "\<not> ?T" and "collectLegalMoves board (if isMaximizingPlayer then BLACK else WHITE)
                      enPassantTarget castlingRights = move # rest"
      and "minimax fuel (applyMove (deepClone board) move) (depth - 1) alpha beta
                        (\<not> isMaximizingPlayer) enPassantTarget castlingRights = None"
    for fuel move rest
    using that by (cases isMaximizingPlayer) (simp_all add: minimax.simps[of "Suc fuel"] Let_def)
  have child: "\<exists>move \<in> set (collectLegalMoves board
                                         (if isMaximizingPlayer then BLACK else WHITE)
                                         enPassantTarget castlingRights).
                          \<exists>a b. minimax fuel (applyMove (deepClone board) move) (depth - 1) a b
                                  (\<not> isMaximizingPlayer) enPassantTarget castlingRights
                                = Some v"
    if "\<not> ?T" and "minimax (Suc fuel) board depth alpha beta isMaximizingPlayer
                      enPassantTarget castlingRights = Some v" for fuel v
    using minimax_value_of_child[OF that] by simp
  have ret: "\<exists>v. minimax (nat depth) board depth alpha beta isMaximizingPlayer enPassantTarget
              castlingRights = Some v" if "0 \<le> depth"
    using that search_returns(1)[of depth "nat depth"] by simp
  have maxStep: "maximize fuel board depth a b best (move # rest) enPassantTarget castlingRights
             = (case minimax fuel (applyMove (deepClone board) move) (depth - 1) a b False
                      enPassantTarget castlingRights of
                  None \<Rightarrow> None
                | Some eval \<Rightarrow>
                    if jsLe b (jsMax a eval) then Some (jsMax best eval)
                    else maximize fuel board depth (jsMax a eval) b (jsMax best eval) rest
                           enPassantTarget castlingRights)" for fuel a b best move rest
    by (simp add: Let_def split: option.splits)
  have minStep: "minimize fuel board depth a b best (move # rest) enPassantTarget castlingRights
             = (case minimax fuel (applyMove (deepClone board) move) (depth - 1) a b True
                      enPassantTarget castlingRights of
                  None \<Rightarrow> None
                | Some eval \<Rightarrow>
                    if jsLe (jsMin b eval) a then Some (jsMin best eval)
                    else minimize fuel board depth a (jsMin b eval) (jsMin best eval) rest
                           enPassantTarget castlingRights)" for fuel a b best move rest
    by (simp add: Let_def split: option.splits)
  show ?thesis
  proof (intro conjI impI allI)
    fix fuel assume "?T"
    then show "minimax fuel board depth alpha beta isMaximizingPlayer enPassantTarget
      castlingRights = Some (Finite (evaluateBoard board))" by (rule base)
  next
    assume "\<not> ?T"
    then show "minimax 0 board depth alpha beta isMaximizingPlayer enPassantTarget castlingRights
      = None" by (rule zero)
  next
    fix fuel assume "\<not> ?T"
    then show "minimax (Suc fuel) board depth alpha beta isMaximizingPlayer
                           enPassantTarget castlingRights
                         = (if isMaximizingPlayer
                            then maximize fuel board depth alpha beta NegInfinity
                                   (collectLegalMoves board BLACK enPassantTarget castlingRights)
                                   enPassantTarget castlingRights
                            else minimize fuel board depth alpha beta PosInfinity
                                   (collectLegalMoves board WHITE enPassantTarget castlingRights)
                                   enPassantTarget castlingRights)" by (rule loop)
  next
    fix fuel move rest
    assume nt: "\<not> ?T"
      and a: "collectLegalMoves board (if isMaximizingPlayer then BLACK else WHITE)
                      enPassantTarget castlingRights = move # rest
                    \<and> minimax fuel (applyMove (deepClone board) move) (depth - 1) alpha beta
                        (\<not> isMaximizingPlayer) enPassantTarget castlingRights = None"
    show "minimax (Suc fuel) board depth alpha beta isMaximizingPlayer
                          enPassantTarget castlingRights = None"
      using first[OF nt conjunct1[OF a] conjunct2[OF a]] .
  next
    fix fuel v
    assume nt: "\<not> ?T"
      and r: "minimax (Suc fuel) board depth alpha beta isMaximizingPlayer
                      enPassantTarget castlingRights = Some v"
    show "\<exists>move \<in> set (collectLegalMoves board
                                         (if isMaximizingPlayer then BLACK else WHITE)
                                         enPassantTarget castlingRights).
                          \<exists>a b. minimax fuel (applyMove (deepClone board) move) (depth - 1) a b
                                  (\<not> isMaximizingPlayer) enPassantTarget castlingRights
                                = Some v"
      using child[OF nt r] .
  next
    fix fuel a b best
    show "maximize fuel board depth a b best [] enPassantTarget castlingRights = Some best"
      and "minimize fuel board depth a b best [] enPassantTarget castlingRights = Some best"
      by simp_all
  next
    fix fuel a b best move rest
    show "maximize fuel board depth a b best (move # rest) enPassantTarget castlingRights
             = (case minimax fuel (applyMove (deepClone board) move) (depth - 1) a b False
                      enPassantTarget castlingRights of
                  None \<Rightarrow> None
                | Some eval \<Rightarrow>
                    if jsLe b (jsMax a eval) then Some (jsMax best eval)
                    else maximize fuel board depth (jsMax a eval) b (jsMax best eval) rest
                           enPassantTarget castlingRights)" by (rule maxStep)
  next
    fix fuel a b best move rest
    show "minimize fuel board depth a b best (move # rest) enPassantTarget castlingRights
             = (case minimax fuel (applyMove (deepClone board) move) (depth - 1) a b True
                      enPassantTarget castlingRights of
                  None \<Rightarrow> None
                | Some eval \<Rightarrow>
                    if jsLe (jsMin b eval) a then Some (jsMin best eval)
                    else minimize fuel board depth a (jsMin b eval) (jsMin best eval) rest
                           enPassantTarget castlingRights)" by (rule minStep)
  next
    assume "0 \<le> depth"
    then show "\<exists>v. minimax (nat depth) board depth alpha beta isMaximizingPlayer enPassantTarget
              castlingRights = Some v" by (rule ret)
  next
    fix move
    show "move \<in> set (collectLegalMoves board (if isMaximizingPlayer then BLACK else WHITE)
                          enPassantTarget castlingRights)
             \<longleftrightarrow> (\<exists>pos. isValidPosition pos
                    \<and> (\<exists>piece. cellAt board (row pos) (col pos) = Some piece
                               \<and> color piece = (if isMaximizingPlayer then BLACK else WHITE))
                    \<and> move \<in> set (getPossibleMoves board pos enPassantTarget castlingRights)
                    \<and> \<not> isKingInCheck (applyMove (deepClone board) move)
                          (if isMaximizingPlayer then BLACK else WHITE))"
      by (rule mem_collectLegalMoves)
  qed
qed

theorem minimax_base_cases_witness:
  "wellFormedBoard twoKings
   \<and> (\<forall>fuel. minimax fuel twoKings 0 NegInfinity PosInfinity True None defaultCastlingRights
               = Some (Finite (evaluateBoard twoKings)))
   \<and> \<not> (isCheckmate twoKings WHITE \<or> isCheckmate twoKings BLACK
         \<or> isStalemate twoKings WHITE \<or> isStalemate twoKings BLACK
         \<or> collectLegalMoves twoKings BLACK None defaultCastlingRights = [])
   \<and> minimax 0 twoKings 1 NegInfinity PosInfinity True None defaultCastlingRights = None
   \<and> (\<exists>v. minimax 1 twoKings 1 NegInfinity PosInfinity True None defaultCastlingRights = Some v
          \<and> (\<exists>move \<in> set (collectLegalMoves twoKings BLACK None defaultCastlingRights).
                \<exists>a b. minimax 0 (applyMove (deepClone twoKings) move) 0 a b False None
                        defaultCastlingRights = Some v))"
proof -
  have wf: "wellFormedBoard twoKings" by code_simp
  have nt: "\<not> (isCheckmate twoKings WHITE \<or> isCheckmate twoKings BLACK
         \<or> isStalemate twoKings WHITE \<or> isStalemate twoKings BLACK
         \<or> collectLegalMoves twoKings BLACK None defaultCastlingRights = [])"
    by code_simp
  note a = minimax_base_cases[OF wf, of 0 True None defaultCastlingRights NegInfinity PosInfinity]
  note b = minimax_base_cases[OF wf, of 1 True None defaultCastlingRights NegInfinity PosInfinity]
  from a have 1: "\<forall>fuel. minimax fuel twoKings 0 NegInfinity PosInfinity True None
      defaultCastlingRights = Some (Finite (evaluateBoard twoKings))"
    by simp
  from b nt have 2: "minimax 0 twoKings 1 NegInfinity PosInfinity True None defaultCastlingRights
      = None"
    by simp
  from b have "0 \<le> (1::int) \<longrightarrow> (\<exists>v. minimax (nat 1) twoKings 1 NegInfinity PosInfinity True
      None defaultCastlingRights = Some v)"
    by (elim conjE)
  then obtain v where v:
    "minimax (Suc 0) twoKings 1 NegInfinity PosInfinity True None defaultCastlingRights = Some v"
    by auto
  from b nt have "\<forall>fuel v.
      minimax (Suc fuel) twoKings 1 NegInfinity PosInfinity True None defaultCastlingRights = Some v
      \<longrightarrow> (\<exists>move \<in> set (collectLegalMoves twoKings BLACK None defaultCastlingRights).
            \<exists>a b. minimax fuel (applyMove (deepClone twoKings) move) (1 - 1) a b (\<not> True) None
                    defaultCastlingRights = Some v)"
    by simp
  with v have 3: "\<exists>move \<in> set (collectLegalMoves twoKings BLACK None defaultCastlingRights).
      \<exists>a b. minimax 0 (applyMove (deepClone twoKings) move) 0 a b False None
              defaultCastlingRights = Some v"
    by fastforce
  from v have v': "minimax 1 twoKings 1 NegInfinity PosInfinity True None defaultCastlingRights
      = Some v" by simp
  from wf nt 1 2 3 v' show ?thesis by blast
qed

text \<open>
  Claim C6, as amended. With a depth of 1 or more (the callers pass 1, 2 or 3)
  \<open>findBestMove\<close> returns, \<open>depth - 1\<close> nested calls of \<open>minimax\<close> being enough; the
  result is \<open>null\<close> if and only if the side to move has no legal move, and otherwise it
  is one of the legal moves. At any depth it returns \<open>null\<close> when the side to move has
  no legal move, and whenever it returns the result is as just said.
\<close>

theorem findBestMove_result:
  assumes "wellFormedBoard board"
  shows "(collectLegalMoves board (if isBlack then BLACK else WHITE) enPassantTarget castlingRights = []
          \<longrightarrow> (\<forall>fuel. findBestMove fuel board depth isBlack enPassantTarget castlingRights
                        = Some None))
       \<and> (\<forall>fuel r. findBestMove fuel board depth isBlack enPassantTarget castlingRights = Some r
            \<longrightarrow> (r = None \<longleftrightarrow>
                   collectLegalMoves board (if isBlack then BLACK else WHITE)
                     enPassantTarget castlingRights = [])
              \<and> (collectLegalMoves board (if isBlack then BLACK else WHITE)
                    enPassantTarget castlingRights \<noteq> []
                  \<longrightarrow> (\<exists>move \<in> set (collectLegalMoves board (if isBlack then BLACK else WHITE)
                                       enPassantTarget castlingRights). r = Some move)))
       \<and> (1 \<le> depth
          \<longrightarrow> (\<forall>fuel. nat (depth - 1) \<le> fuel
                \<longrightarrow> (\<exists>r. findBestMove fuel board depth isBlack enPassantTarget castlingRights
                          = Some r)))
       \<and> (1 \<le> depth
          \<longrightarrow> (\<exists>r. findBestMove (nat (depth - 1)) board depth isBlack enPassantTarget
                      castlingRights = Some r
                  \<and> (r = None \<longleftrightarrow>
                       collectLegalMoves board (if isBlack then BLACK else WHITE)
                         enPassantTarget castlingRights = [])
                  \<and> (collectLegalMoves board (if isBlack then BLACK else WHITE)
                        enPassantTarget castlingRights \<noteq> []
                      \<longrightarrow> (\<exists>move \<in> set (collectLegalMoves board
                                           (if isBlack then BLACK else WHITE)
                                           enPassantTarget castlingRights). r = Some move))))
       \<and> (\<forall>move.
             move \<in> set (collectLegalMoves board (if isBlack then BLACK else WHITE)
                          enPassantTarget castlingRights)
             \<longleftrightarrow> (\<exists>pos. isValidPosition pos
                    \<and> (\<exists>piece. cellAt board (row pos) (col pos) = Some piece
                               \<and> color piece = (if isBlack then BLACK else WHITE))
                    \<and> move \<in> set (getPossibleMoves board pos enPassantTarget castlingRights)
                    \<and> \<not> isKingInCheck (applyMove (deepClone board) move)
                          (if isBlack then BLACK else WHITE)))"
proof -
  let ?ms = "collectLegalMoves board (if isBlack then BLACK else WHITE) enPassantTarget castlingRights"
  have fb: "findBestMove fuel board depth isBlack enPassantTarget castlingRights
      = (if ?ms = [] then Some None
         else bestMoveLoop fuel board depth isBlack enPassantTarget castlingRights None
                (if isBlack then NegInfinity else PosInfinity) ?ms)" for fuel
    by (simp add: findBestMove_def Let_def)
  have mem: "\<exists>move \<in> set ?ms. r = Some move"
    if "findBestMove fuel board depth isBlack enPassantTarget castlingRights = Some r" "?ms \<noteq> []"
    for fuel r
    using that bestMoveLoop_member[of fuel board depth isBlack enPassantTarget castlingRights
        None "if isBlack then NegInfinity else PosInfinity" ?ms r "set ?ms"]
    by (simp add: fb)
  have iff: "r = None \<longleftrightarrow> ?ms = []"
    if r: "findBestMove fuel board depth isBlack enPassantTarget castlingRights = Some r"
    for fuel r
  proof (cases "?ms = []")
    case True
    with r show ?thesis by (simp add: fb)
  next
    case False
    with mem[OF r False] show ?thesis by auto
  qed
  have ret: "\<exists>r. findBestMove fuel board depth isBlack enPassantTarget castlingRights = Some r"
    if "1 \<le> depth" "nat (depth - 1) \<le> fuel" for fuel
    using bestMoveLoop_returns[OF that] by (simp add: fb)
  show ?thesis
  proof (intro conjI impI allI)
    fix fuel r
    assume r: "findBestMove fuel board depth isBlack enPassantTarget castlingRights = Some r"
    show "r = None \<longleftrightarrow> ?ms = []" using iff[OF r] .
    show "\<exists>move \<in> set ?ms. r = Some move" if "?ms \<noteq> []"
      using mem[OF r that] .
  next
    fix fuel assume "1 \<le> depth" "nat (depth - 1) \<le> fuel"
    then show "\<exists>r. findBestMove fuel board depth isBlack enPassantTarget castlingRights = Some r"
      by (rule ret)
  next
    assume d: "1 \<le> depth"
    from ret[OF d order_refl] obtain r where
      r: "findBestMove (nat (depth - 1)) board depth isBlack enPassantTarget castlingRights
            = Some r" by blast
    from r iff[OF r] mem[OF r]
    show "\<exists>r. findBestMove (nat (depth - 1)) board depth isBlack enPassantTarget
                      castlingRights = Some r
                  \<and> (r = None \<longleftrightarrow> ?ms = [])
                  \<and> (?ms \<noteq> [] \<longrightarrow> (\<exists>move \<in> set ?ms. r = Some move))"
      by blast
  next
    fix move
    show "move \<in> set ?ms
             \<longleftrightarrow> (\<exists>pos. isValidPosition pos
                    \<and> (\<exists>piece. cellAt board (row pos) (col pos) = Some piece
                               \<and> color piece = (if isBlack then BLACK else WHITE))
                    \<and> move \<in> set (getPossibleMoves board pos enPassantTarget castlingRights)
                    \<and> \<not> isKingInCheck (applyMove (deepClone board) move)
                          (if isBlack then BLACK else WHITE))"
      by (rule mem_collectLegalMoves)
  qed (simp add: fb)
qed

theorem findBestMove_result_witness:
  "wellFormedBoard twoKings
   \<and> collectLegalMoves twoKings BLACK None defaultCastlingRights \<noteq> []
   \<and> (\<exists>move \<in> set (collectLegalMoves twoKings BLACK None defaultCastlingRights).
         findBestMove 0 twoKings 1 True None defaultCastlingRights = Some (Some move))
   \<and> wellFormedBoard backRankMate
   \<and> collectLegalMoves backRankMate WHITE None defaultCastlingRights = []
   \<and> findBestMove 0 backRankMate 1 False None defaultCastlingRights = Some None"
proof -
  have wf: "wellFormedBoard twoKings" by code_simp
  have ne: "collectLegalMoves twoKings BLACK None defaultCastlingRights \<noteq> []" by code_simp
  have wf': "wellFormedBoard backRankMate" by code_simp
  have em: "collectLegalMoves backRankMate WHITE None defaultCastlingRights = []" by code_simp
  note a = findBestMove_result[OF wf, of True None defaultCastlingRights 1]
  note b = findBestMove_result[OF wf', of False None defaultCastlingRights 1]
  from a have "\<exists>r. findBestMove (nat (1 - 1)) twoKings 1 True None defaultCastlingRights = Some r
      \<and> (r = None \<longleftrightarrow> collectLegalMoves twoKings (if True then BLACK else WHITE) None
                         defaultCastlingRights = [])
      \<and> (collectLegalMoves twoKings (if True then BLACK else WHITE) None defaultCastlingRights \<noteq> []
          \<longrightarrow> (\<exists>move \<in> set (collectLegalMoves twoKings (if True then BLACK else WHITE) None
                               defaultCastlingRights). r = Some move))"
    by simp
  with ne have 1: "\<exists>move \<in> set (collectLegalMoves twoKings BLACK None defaultCastlingRights).
      findBestMove 0 twoKings 1 True None defaultCastlingRights = Some (Some move)"
    by auto
  from b em have 2: "findBestMove 0 backRankMate 1 False None defaultCastlingRights = Some None"
    by simp
  from wf ne 1 wf' em 2 show ?thesis by blast
qed

lemma cycle_steps:
  "firstChild kingsCycleA BLACK = Some kingsCycleB"
  "firstChild kingsCycleB WHITE = Some kingsCycleC"
  "firstChild kingsCycleC BLACK = Some kingsCycleD"
  "firstChild kingsCycleD WHITE = Some kingsCycleA"
  by code_simp+

lemma cycle_not_terminal:
  "\<not> (isCheckmate kingsCycleA WHITE \<or> isCheckmate kingsCycleA BLACK
      \<or> isStalemate kingsCycleA WHITE \<or> isStalemate kingsCycleA BLACK)"
  "\<not> (isCheckmate kingsCycleB WHITE \<or> isCheckmate kingsCycleB BLACK
      \<or> isStalemate kingsCycleB WHITE \<or> isStalemate kingsCycleB BLACK)"
  "\<not> (isCheckmate kingsCycleC WHITE \<or> isCheckmate kingsCycleC BLACK
      \<or> isStalemate kingsCycleC WHITE \<or> isStalemate kingsCycleC BLACK)"
  "\<not> (isCheckmate kingsCycleD WHITE \<or> isCheckmate kingsCycleD BLACK
      \<or> isStalemate kingsCycleD WHITE \<or> isStalemate kingsCycleD BLACK)"
  by code_simp+

lemma firstChild_SomeD:
  assumes "firstChild board playerColor = Some child"
  obtains move rest where
    "collectLegalMoves board playerColor None defaultCastlingRights = move # rest"
    "applyMove (deepClone board) move = child"
  using assms by (auto simp: firstChild_def split: list.splits)

lemma minimax_first_child_None:
  assumes nt: "\<not> (isCheckmate board WHITE \<or> isCheckmate board BLACK
                 \<or> isStalemate board WHITE \<or> isStalemate board BLACK)"
    and d: "depth \<noteq> 0"
    and fc: "firstChild board (if isMax then BLACK else WHITE) = Some child"
    and rec: "\<And>fuel'. fuel = Suc fuel'
               \<Longrightarrow> minimax fuel' child (depth - 1) alpha beta (\<not> isMax) None defaultCastlingRights = None"
  shows "minimax fuel board depth alpha beta isMax None defaultCastlingRights = None"
proof -
  from fc obtain move rest where
    ms: "collectLegalMoves board (if isMax then BLACK else WHITE) None defaultCastlingRights
           = move # rest"
    and ch: "applyMove (deepClone board) move = child"
    by (rule firstChild_SomeD)
  show ?thesis
  proof (cases fuel)
    case 0
    with nt d ms show ?thesis by (simp add: minimax.simps Let_def)
  next
    case (Suc fuel')
    from rec[OF Suc] have r:
      "minimax fuel' child (depth - 1) alpha beta (\<not> isMax) None defaultCastlingRights = None" .
    show ?thesis
    proof (cases isMax)
      case True
      with nt d ms ch r Suc show ?thesis by (simp add: minimax.simps Let_def)
    next
      case False
      with nt d ms ch r Suc show ?thesis by (simp add: minimax.simps Let_def)
    qed
  qed
qed

lemma kings_cycle_never_returns:
  "depth < 0 \<Longrightarrow>
     minimax fuel kingsCycleA depth alpha beta True None defaultCastlingRights = None
   \<and> minimax fuel kingsCycleB depth alpha beta False None defaultCastlingRights = None
   \<and> minimax fuel kingsCycleC depth alpha beta True None defaultCastlingRights = None
   \<and> minimax fuel kingsCycleD depth alpha beta False None defaultCastlingRights = None"
proof (induction fuel arbitrary: depth alpha beta)
  case 0
  then have d: "depth \<noteq> 0" by simp
  show ?case
    using minimax_first_child_None[OF cycle_not_terminal(1) d, of True kingsCycleB 0 alpha beta]
      minimax_first_child_None[OF cycle_not_terminal(2) d, of False kingsCycleC 0 alpha beta]
      minimax_first_child_None[OF cycle_not_terminal(3) d, of True kingsCycleD 0 alpha beta]
      minimax_first_child_None[OF cycle_not_terminal(4) d, of False kingsCycleA 0 alpha beta]
      cycle_steps
    by simp
next
  case (Suc fuel)
  then have d: "depth \<noteq> 0" and d1: "depth - 1 < 0" by simp_all
  note ih = Suc.IH[OF d1, of alpha beta]
  show ?case
    using minimax_first_child_None[OF cycle_not_terminal(1) d, of True kingsCycleB "Suc fuel" alpha beta]
      minimax_first_child_None[OF cycle_not_terminal(2) d, of False kingsCycleC "Suc fuel" alpha beta]
      minimax_first_child_None[OF cycle_not_terminal(3) d, of True kingsCycleD "Suc fuel" alpha beta]
      minimax_first_child_None[OF cycle_not_terminal(4) d, of False kingsCycleA "Suc fuel" alpha beta]
      cycle_steps ih
    by simp
qed

lemma findBestMove_nonpositive_depth_never_returns:
  assumes "depth \<le> 0"
  shows "findBestMove fuel kingsCycleA depth True None defaultCastlingRights = None"
proof -
  obtain move rest where
    ms: "collectLegalMoves kingsCycleA BLACK None defaultCastlingRights = move # rest"
    and ch: "applyMove (deepClone kingsCycleA) move = kingsCycleB"
    using cycle_steps(1) by (rule firstChild_SomeD)
  from assms have "depth - 1 < 0" by simp
  from kings_cycle_never_returns[OF this, of fuel NegInfinity PosInfinity] ms ch
  show ?thesis by (simp add: findBestMove_def Let_def)
qed

text \<open>
  Claim C6 as stated fails at depth 0: \<open>minimax\<close> is then called with depth -1, which
  never reaches 0. On \<open>kingsCycleA\<close> Black has a legal move, and the search of the first
  one walks the four positions round and round, so \<open>findBestMove\<close> returns nothing,
  however many nested calls are allowed.
\<close>

theorem findBestMove_depth_zero_never_returns:
  "wellFormedBoard kingsCycleA
   \<and> collectLegalMoves kingsCycleA BLACK None defaultCastlingRights \<noteq> []
   \<and> (\<forall>fuel. findBestMove fuel kingsCycleA 0 True None defaultCastlingRights = None)"
proof -
  have wf: "wellFormedBoard kingsCycleA" by code_simp
  obtain move rest where
    ms: "collectLegalMoves kingsCycleA BLACK None defaultCastlingRights = move # rest"
    and ch: "applyMove (deepClone kingsCycleA) move = kingsCycleB"
    using cycle_steps(1) by (rule firstChild_SomeD)
  have "findBestMove fuel kingsCycleA 0 True None defaultCastlingRights = None" for fuel
    using kings_cycle_never_returns[of "-1" fuel NegInfinity PosInfinity] ms ch
    by (simp add: findBestMove_def Let_def)
  with wf ms show ?thesis by simp
qed

end
